theory Spec2Isabelle
  imports Complex_Main "HOL-Library.Product_Lexorder" "HOL-Library.Multiset"
begin

section \<open>Static map rendering of activation points (main.py)\<close>

text \<open>
  A Python float is taken as the real number it denotes; NaN and the infinities are left
  out.  The arithmetic of the projection is read as exact arithmetic on the reals.  In
  \<open>choose_zoom\<close>, whose result hangs on comparisons with the two targets, the arithmetic
  is a parameter instead, so that what is proved of it holds whatever the rounding.
  Python exceptions are values of \<open>error\<close> on the left of a sum.  A zoom level is a
  natural number.  A point is a pair (latitude, longitude), as in the source.
\<close>

datatype error =
    ValueError
  | ZeroDivisionError
  | RuntimeError string
  | HTTPError
  | UnidentifiedImageError

type_synonym point = "real \<times> real"

definition ebind :: "error + 'a \<Rightarrow> ('a \<Rightarrow> error + 'b) \<Rightarrow> error + 'b" where
  "ebind m f = (case m of Inl e \<Rightarrow> Inl e | Inr v \<Rightarrow> f v)"

text \<open>A generator expression whose element computation may raise: the first raise wins.\<close>

fun traverse :: "('a \<Rightarrow> error + 'b) \<Rightarrow> 'a list \<Rightarrow> error + 'b list" where
  "traverse f [] = Inr []"
| "traverse f (a # as) =
     (case f a of
        Inl e \<Rightarrow> Inl e
      | Inr b \<Rightarrow> (case traverse f as of Inl e \<Rightarrow> Inl e | Inr bs \<Rightarrow> Inr (b # bs)))"

text \<open>\<open>min(xs)\<close> and \<open>max(xs)\<close> raise ValueError on an empty sequence.\<close>

definition py_min :: "'a::linorder list \<Rightarrow> error + 'a" where
  "py_min xs = (case xs of [] \<Rightarrow> Inl ValueError | x # rest \<Rightarrow> Inr (fold min rest x))"

definition py_max :: "'a::linorder list \<Rightarrow> error + 'a" where
  "py_max xs = (case xs of [] \<Rightarrow> Inl ValueError | x # rest \<Rightarrow> Inr (fold max rest x))"

text \<open>
  \<open>xs, ys = zip(*pairs)\<close>: with no pair at all \<open>zip()\<close> yields nothing and the
  unpacking into two names raises ValueError.
\<close>

definition unzip2 :: "('a \<times> 'b) list \<Rightarrow> error + ('a list \<times> 'b list)" where
  "unzip2 ps = (if ps = [] then Inl ValueError else Inr (map fst ps, map snd ps))"

subsection \<open>Projection: \<open>lonlat_to_pixels\<close>\<close>

text \<open>
  The division raises ZeroDivisionError on a zero divisor and \<open>math.log\<close> raises
  ValueError on a non-positive argument; both are branches of the model.
\<close>

definition lonlat_to_pixels :: "real \<Rightarrow> real \<Rightarrow> nat \<Rightarrow> error + (real \<times> real)" where
  "lonlat_to_pixels lon lat zoom =
     (let siny = sin (lat * pi / 180);
          siny = min (max siny (- 0.9999)) 0.9999;
          scale = 256 * 2 ^ zoom;
          x = (lon + 180) / 360 * scale
      in if 1 - siny = 0 then Inl ZeroDivisionError
         else if (1 + siny) / (1 - siny) \<le> 0 then Inl ValueError
         else Inr (x, (0.5 - ln ((1 + siny) / (1 - siny)) / (4 * pi)) * scale))"

text \<open>The projection as the specification words it (section 4.1).\<close>

definition clamp :: "real \<Rightarrow> real \<Rightarrow> real \<Rightarrow> real" where
  "clamp lo hi v = (if v < lo then lo else if hi < v then hi else v)"

definition project_scale :: "nat \<Rightarrow> real" where
  "project_scale zoom = 256 * 2 ^ zoom"

definition project_siny :: "real \<Rightarrow> real" where
  "project_siny latitude = clamp (- 0.9999) 0.9999 (sin (latitude * pi / 180))"

definition project_x :: "real \<Rightarrow> nat \<Rightarrow> real" where
  "project_x longitude zoom = (longitude + 180) / 360 * project_scale zoom"

definition project_y :: "real \<Rightarrow> nat \<Rightarrow> real" where
  "project_y latitude zoom =
     (0.5 - ln ((1 + project_siny latitude) / (1 - project_siny latitude)) / (4 * pi))
       * project_scale zoom"

subsection \<open>Zoom selection: \<open>choose_zoom\<close>\<close>

definition TARGET_WIDTH :: real where "TARGET_WIDTH = 1200"
definition TARGET_HEIGHT :: real where "TARGET_HEIGHT = 800"
definition MAX_ZOOM :: nat where "MAX_ZOOM = 12"
definition MIN_ZOOM :: nat where "MIN_ZOOM = 4"

text \<open>\<open>range(MAX_ZOOM, MIN_ZOOM - 1, -1)\<close>\<close>

definition zoom_candidates :: "nat list" where
  "zoom_candidates = rev [MIN_ZOOM ..< Suc MAX_ZOOM]"

text \<open>
  The loop of \<open>choose_zoom\<close>, for any floating-point arithmetic: \<open>proj\<close> stands for
  \<open>lonlat_to_pixels\<close> as the machine computes it and \<open>fsub\<close> for the subtraction of
  two floats, rounded.  The minimum, the maximum and the comparisons of floats are exact.
  First the body of the loop up to the test, the pixel bounding box (width, height).
\<close>

definition pixel_bbox ::
  "(real \<Rightarrow> real \<Rightarrow> nat \<Rightarrow> error + (real \<times> real)) \<Rightarrow> (real \<Rightarrow> real \<Rightarrow> real)
     \<Rightarrow> nat \<Rightarrow> point list \<Rightarrow> error + (real \<times> real)" where
  "pixel_bbox proj fsub zoom points =
     ebind (traverse (\<lambda>(lat, lon). proj lon lat zoom) points) (\<lambda>pixels.
     ebind (unzip2 pixels) (\<lambda>(xs, ys).
     ebind (py_min xs) (\<lambda>min_x.
     ebind (py_max xs) (\<lambda>max_x.
     ebind (py_min ys) (\<lambda>min_y.
     ebind (py_max ys) (\<lambda>max_y.
       Inr (fsub max_x min_x, fsub max_y min_y)))))))"

fun choose_zoom_loop ::
  "(real \<Rightarrow> real \<Rightarrow> nat \<Rightarrow> error + (real \<times> real)) \<Rightarrow> (real \<Rightarrow> real \<Rightarrow> real)
     \<Rightarrow> nat list \<Rightarrow> point list \<Rightarrow> error + nat" where
  "choose_zoom_loop proj fsub [] points = Inr MIN_ZOOM"
| "choose_zoom_loop proj fsub (zoom # rest) points =
     (case pixel_bbox proj fsub zoom points of
        Inl e \<Rightarrow> Inl e
      | Inr (width, height) \<Rightarrow>
          if width \<le> TARGET_WIDTH \<and> height \<le> TARGET_HEIGHT then Inr zoom
          else choose_zoom_loop proj fsub rest points)"

definition choose_zoom_fp ::
  "(real \<Rightarrow> real \<Rightarrow> nat \<Rightarrow> error + (real \<times> real)) \<Rightarrow> (real \<Rightarrow> real \<Rightarrow> real)
     \<Rightarrow> point list \<Rightarrow> real \<Rightarrow> error + nat" where
  "choose_zoom_fp proj fsub points padding = choose_zoom_loop proj fsub zoom_candidates points"

text \<open>\<open>choose_zoom\<close> read with exact arithmetic.\<close>

definition choose_zoom :: "point list \<Rightarrow> real \<Rightarrow> error + nat" where
  "choose_zoom points padding = choose_zoom_fp lonlat_to_pixels (-) points padding"

text \<open>
  The fit test as the specification words it, on the pixels that the program computes:
  the width and height of the bounding box of the projected points.
\<close>

definition bbox_width_fp ::
  "(real \<Rightarrow> real \<Rightarrow> nat \<Rightarrow> error + (real \<times> real)) \<Rightarrow> (real \<Rightarrow> real \<Rightarrow> real)
     \<Rightarrow> nat \<Rightarrow> point list \<Rightarrow> real" where
  "bbox_width_fp proj fsub zoom points =
     fsub (Max ((\<lambda>(lat, lon). fst (projr (proj lon lat zoom))) ` set points))
          (Min ((\<lambda>(lat, lon). fst (projr (proj lon lat zoom))) ` set points))"

definition bbox_height_fp ::
  "(real \<Rightarrow> real \<Rightarrow> nat \<Rightarrow> error + (real \<times> real)) \<Rightarrow> (real \<Rightarrow> real \<Rightarrow> real)
     \<Rightarrow> nat \<Rightarrow> point list \<Rightarrow> real" where
  "bbox_height_fp proj fsub zoom points =
     fsub (Max ((\<lambda>(lat, lon). snd (projr (proj lon lat zoom))) ` set points))
          (Min ((\<lambda>(lat, lon). snd (projr (proj lon lat zoom))) ` set points))"

definition fits_fp ::
  "(real \<Rightarrow> real \<Rightarrow> nat \<Rightarrow> error + (real \<times> real)) \<Rightarrow> (real \<Rightarrow> real \<Rightarrow> real)
     \<Rightarrow> nat \<Rightarrow> point list \<Rightarrow> bool" where
  "fits_fp proj fsub zoom points \<longleftrightarrow>
     bbox_width_fp proj fsub zoom points \<le> 1200 \<and> bbox_height_fp proj fsub zoom points \<le> 800"

text \<open>The same with exact arithmetic, on the projection of section 4.1.\<close>

definition bbox_width :: "nat \<Rightarrow> point list \<Rightarrow> real" where
  "bbox_width zoom points =
     Max ((\<lambda>(lat, lon). project_x lon zoom) ` set points)
       - Min ((\<lambda>(lat, lon). project_x lon zoom) ` set points)"

definition bbox_height :: "nat \<Rightarrow> point list \<Rightarrow> real" where
  "bbox_height zoom points =
     Max ((\<lambda>(lat, lon). project_y lat zoom) ` set points)
       - Min ((\<lambda>(lat, lon). project_y lat zoom) ` set points)"

definition fits :: "nat \<Rightarrow> point list \<Rightarrow> bool" where
  "fits zoom points \<longleftrightarrow> bbox_width zoom points \<le> 1200 \<and> bbox_height zoom points \<le> 800"

subsection \<open>Data and environment of the PNG path\<close>

record activation =
  summit_code :: string
  summit_name :: string
  latitude :: real
  longitude :: real
  date :: string

text \<open>\<open>mercantile.Tile(x, y, z)\<close>\<close>

record tile =
  tile_x :: int
  tile_y :: int
  tile_z :: nat

type_synonym bytes = "char list"

text \<open>The key (z, x, y) stands for the path \<open>tile_cache/z/x/y.png\<close> and the tile URL.\<close>

type_synonym tile_key = "nat \<times> int \<times> int"

record response =
  status_code :: nat
  content :: bytes

text \<open>
  The canvas is the blank image of a given size together with what was painted on it,
  in order: first the tiles pasted (image, left, top), then the marker ellipses
  (left, top, right, bottom).
\<close>

record 'img canvas =
  canvas_width :: int
  canvas_height :: int
  pastes :: "('img \<times> int \<times> int) list"
  markers :: "(int \<times> int \<times> int \<times> int) list"

text \<open>
  The libraries and the tile server are parameters: the HTTP GET of a tile URL, PIL's
  \<open>Image.open\<close>, \<open>convert("RGB")\<close> and \<open>save(format="PNG")\<close>, and
  \<open>mercantile.tiles(west, south, east, north, zoom)\<close>.
\<close>

record 'img env =
  http_get :: "tile_key \<Rightarrow> error + response"
  image_open :: "bytes \<Rightarrow> error + 'img"
  convert_rgb :: "'img \<Rightarrow> 'img"
  image_save_png :: "'img \<Rightarrow> error + bytes"
  mercantile_tiles :: "real \<Rightarrow> real \<Rightarrow> real \<Rightarrow> real \<Rightarrow> nat \<Rightarrow> error + tile list"

text \<open>
  What the program changes: the directories and files of the tile cache, the requests
  sent to the tile server (in order), and the output files.
\<close>

record 'img world =
  dirs :: "(nat \<times> int) set"
  files :: "tile_key \<rightharpoonup> bytes"
  requests :: "tile_key list"
  outputs :: "string \<rightharpoonup> 'img canvas"

subsection \<open>Tile cache: \<open>get_tile\<close>\<close>

text \<open>
  A cache hit opens the file and converts the image to RGB.  A miss creates the
  directory, sends the request (logged whether or not it succeeds), raises on a status
  from 400 to 599, opens the body as an image, saves it as PNG under the cache path and
  returns the image as opened, without conversion.  A save that fails is taken to leave
  no file behind.
\<close>

definition get_tile ::
  "'img env \<Rightarrow> nat \<Rightarrow> int \<Rightarrow> int \<Rightarrow> 'img world \<Rightarrow> (error + 'img) \<times> 'img world" where
  "get_tile env z x y w =
     (case files w (z, x, y) of
        Some data \<Rightarrow>
          (case image_open env data of
             Inl e \<Rightarrow> (Inl e, w)
           | Inr img \<Rightarrow> (Inr (convert_rgb env img), w))
      | None \<Rightarrow>
          (let w1 = w\<lparr>dirs := insert (z, x) (dirs w)\<rparr>;
               w2 = w1\<lparr>requests := requests w1 @ [(z, x, y)]\<rparr>
           in case http_get env (z, x, y) of
                Inl e \<Rightarrow> (Inl e, w2)
              | Inr resp \<Rightarrow>
                  if 400 \<le> status_code resp \<and> status_code resp < 600 then (Inl HTTPError, w2)
                  else (case image_open env (content resp) of
                          Inl e \<Rightarrow> (Inl e, w2)
                        | Inr img \<Rightarrow>
                            (case image_save_png env img of
                               Inl e \<Rightarrow> (Inl e, w2)
                             | Inr data \<Rightarrow>
                                 (Inr img, w2\<lparr>files := (files w2)((z, x, y) \<mapsto> data)\<rparr>)))))"

subsection \<open>Rendering: \<open>output_to_png\<close>\<close>

definition TILE_SIZE :: int where "TILE_SIZE = 256"
definition MARKER_RADIUS :: int where "MARKER_RADIUS = 4"

text \<open>\<open>int(r)\<close> of a float truncates towards zero.\<close>

definition py_int :: "real \<Rightarrow> int" where
  "py_int r = (if 0 \<le> r then \<lfloor>r\<rfloor> else \<lceil>r\<rceil>)"

text \<open>Lines 110 to 116: the bounds of the points, padded; (min_lat, max_lat, min_lon, max_lon).\<close>

definition padded_bounds :: "point list \<Rightarrow> error + (real \<times> real \<times> real \<times> real)" where
  "padded_bounds points =
     (let lats = map fst points;
          lons = map snd points;
          padding = 0.1
      in ebind (py_min lats) (\<lambda>lo_lat.
         ebind (py_max lats) (\<lambda>hi_lat.
         ebind (py_min lons) (\<lambda>lo_lon.
         ebind (py_max lons) (\<lambda>hi_lon.
           Inr (lo_lat - padding, hi_lat + padding, lo_lon - padding, hi_lon + padding))))))"

text \<open>Lines 132 to 141: the anchor and the size of the canvas; (min_x, min_y, width, height).\<close>

definition canvas_geometry :: "tile list \<Rightarrow> error + (int \<times> int \<times> int \<times> int)" where
  "canvas_geometry tiles =
     (let xs = map tile_x tiles;
          ys = map tile_y tiles
      in ebind (py_min xs) (\<lambda>min_x.
         ebind (py_max xs) (\<lambda>max_x.
         ebind (py_min ys) (\<lambda>min_y.
         ebind (py_max ys) (\<lambda>max_y.
           Inr (min_x, min_y, (max_x - min_x + 1) * TILE_SIZE, (max_y - min_y + 1) * TILE_SIZE))))))"

text \<open>Lines 158 to 162: the loop that fetches and pastes; a failed fetch ends it.\<close>

fun paste_tiles ::
  "'img env \<Rightarrow> int \<Rightarrow> int \<Rightarrow> tile list \<Rightarrow> ('img \<times> int \<times> int) list \<Rightarrow> 'img world
     \<Rightarrow> (error + ('img \<times> int \<times> int) list) \<times> 'img world" where
  "paste_tiles env min_x min_y [] done w = (Inr done, w)"
| "paste_tiles env min_x min_y (t # ts) done w =
     (case get_tile env (tile_z t) (tile_x t) (tile_y t) w of
        (Inl e, w') \<Rightarrow> (Inl e, w')
      | (Inr img, w') \<Rightarrow>
          paste_tiles env min_x min_y ts
            (done @ [(img, (tile_x t - min_x) * TILE_SIZE, (tile_y t - min_y) * TILE_SIZE)]) w')"

text \<open>Lines 167 to 183: one ellipse for each point.\<close>

definition draw_markers ::
  "point list \<Rightarrow> nat \<Rightarrow> int \<Rightarrow> int \<Rightarrow> error + (int \<times> int \<times> int \<times> int) list" where
  "draw_markers points zoom min_x min_y =
     traverse (\<lambda>(lat, lon).
       ebind (lonlat_to_pixels lon lat zoom) (\<lambda>(gx, gy).
         let px = py_int (gx - real_of_int (min_x * TILE_SIZE));
             py = py_int (gy - real_of_int (min_y * TILE_SIZE))
         in Inr (px - MARKER_RADIUS, py - MARKER_RADIUS, px + MARKER_RADIUS, py + MARKER_RADIUS)))
       points"

text \<open>Lines 132 to 183: the compositor, from the tile set to the painted canvas.\<close>

definition render ::
  "'img env \<Rightarrow> point list \<Rightarrow> nat \<Rightarrow> tile list \<Rightarrow> 'img world \<Rightarrow> (error + 'img canvas) \<times> 'img world" where
  "render env points zoom tiles w =
     (case canvas_geometry tiles of
        Inl e \<Rightarrow> (Inl e, w)
      | Inr (min_x, min_y, width, height) \<Rightarrow>
          (case paste_tiles env min_x min_y (sort_key (\<lambda>t. (tile_y t, tile_x t)) tiles) [] w of
             (Inl e, w') \<Rightarrow> (Inl e, w')
           | (Inr pasted, w') \<Rightarrow>
               (case draw_markers points zoom min_x min_y of
                  Inl e \<Rightarrow> (Inl e, w')
                | Inr ellipses \<Rightarrow>
                    (Inr \<lparr>canvas_width = width, canvas_height = height,
                          pastes = pasted, markers = ellipses\<rparr>, w'))))"

text \<open>
  What "every required tile is fetched" means (section 4.5, step 3): the tiles of a list
  fetched one after the other through \<open>get_tile\<close>, each from the world the fetch before
  left; the images in this order, or the first failure.
\<close>

fun fetch_all ::
  "'img env \<Rightarrow> tile list \<Rightarrow> 'img world \<Rightarrow> (error + 'img list) \<times> 'img world" where
  "fetch_all env [] w = (Inr [], w)"
| "fetch_all env (t # ts) w =
     (case get_tile env (tile_z t) (tile_x t) (tile_y t) w of
        (Inl e, w') \<Rightarrow> (Inl e, w')
      | (Inr img, w') \<Rightarrow>
          (case fetch_all env ts w' of
             (Inl e, w'') \<Rightarrow> (Inl e, w'')
           | (Inr imgs, w'') \<Rightarrow> (Inr (img # imgs), w'')))"

definition output_to_png ::
  "'img env \<Rightarrow> activation list \<Rightarrow> string \<Rightarrow> 'img world \<Rightarrow> (error + unit) \<times> 'img world" where
  "output_to_png env data output_filename w =
     (let points = map (\<lambda>a. (latitude a, longitude a)) data
      in if points = [] then (Inl (RuntimeError ''No activation coordinates found''), w)
         else
           (let points = sort_key (\<lambda>p. (fst p, snd p)) points
            in case ebind (padded_bounds points) (\<lambda>(min_lat, max_lat, min_lon, max_lon).
                    ebind (choose_zoom points 0.1) (\<lambda>zoom.
                    ebind (mercantile_tiles env min_lon min_lat max_lon max_lat zoom) (\<lambda>tiles.
                      Inr (zoom, tiles)))) of
                 Inl e \<Rightarrow> (Inl e, w)
               | Inr (zoom, tiles) \<Rightarrow>
                   (case render env points zoom tiles w of
                      (Inl e, w') \<Rightarrow> (Inl e, w')
                    | (Inr img, w') \<Rightarrow>
                        (Inr (), w'\<lparr>outputs := (outputs w')(output_filename \<mapsto> img)\<rparr>))))"

subsection \<open>Tile locator\<close>

text \<open>
  Modelled from the spec: the tile locator \<open>tiles_for_bbox\<close> of section 4.3.  The source
  calls \<open>mercantile.tiles\<close> for it, a library that is not part of the source tree.  The
  specification gives it the contract
  \<open>tiles_for_bbox(min_lon, min_lat, max_lon, max_lat, zoom) -> set of TileIndex\<close> and
  says: map each corner of the box to fractional tile coordinates at the given zoom and
  enumerate all integer tile indices whose tile footprint intersects the box.  A
  TileIndex (section 3) is a triple (zoom, x, y) with the invariant that x and y lie in
  [0, 2^zoom).  A tile is 256 pixels wide and high, so the fractional tile coordinate is
  the global pixel coordinate of section 4.1 divided by 256, and tile (x, y) has the
  pixel footprint from 256 x to 256 (x + 1) and from 256 y to 256 (y + 1).
\<close>

definition tiles_for_bbox :: "real \<Rightarrow> real \<Rightarrow> real \<Rightarrow> real \<Rightarrow> nat \<Rightarrow> tile list" where
  "tiles_for_bbox min_lon min_lat max_lon max_lat zoom =
     (let x0 = \<lfloor>project_x min_lon zoom / 256\<rfloor>;
          x1 = \<lfloor>project_x max_lon zoom / 256\<rfloor>;
          y0 = \<lfloor>project_y max_lat zoom / 256\<rfloor>;
          y1 = \<lfloor>project_y min_lat zoom / 256\<rfloor>;
          is_index = (\<lambda>i. 0 \<le> i \<and> i < 2 ^ zoom)
      in concat (map (\<lambda>x. map (\<lambda>y. \<lparr>tile_x = x, tile_y = y, tile_z = zoom\<rparr>)
                               (filter is_index [y0..y1]))
                     (filter is_index [x0..x1])))"

text \<open>A pixel location lies within the footprint of a tile, or of some tile of a list.\<close>

definition in_footprint :: "tile \<Rightarrow> real \<times> real \<Rightarrow> bool" where
  "in_footprint t p \<longleftrightarrow>
     256 * real_of_int (tile_x t) \<le> fst p \<and> fst p < 256 * (real_of_int (tile_x t) + 1) \<and>
     256 * real_of_int (tile_y t) \<le> snd p \<and> snd p < 256 * (real_of_int (tile_y t) + 1)"

definition covered :: "tile list \<Rightarrow> real \<times> real \<Rightarrow> bool" where
  "covered ts p \<longleftrightarrow> list_ex (\<lambda>t. in_footprint t p) ts"

subsection \<open>Concrete environments\<close>

text \<open>
  For the concrete runs below: an image is taken to be the bytes of its PNG file (so that
  opening and saving change nothing and the conversion to RGB is the identity), the cache
  is empty at the start, and the tile server either answers every request with status
  200 and a fixed body, or with status 503, or with status 200 and a body that names
  the tile.
\<close>

definition empty_world :: "bytes world" where
  "empty_world = \<lparr>dirs = {}, files = Map.empty, requests = [], outputs = Map.empty\<rparr>"

definition env_up :: "bytes env" where
  "env_up =
     \<lparr>http_get = (\<lambda>k. Inr \<lparr>status_code = 200, content = ''PNG''\<rparr>),
      image_open = (\<lambda>data. Inr data),
      convert_rgb = (\<lambda>img. img),
      image_save_png = (\<lambda>img. Inr img),
      mercantile_tiles = (\<lambda>west south east north zoom. Inr (tiles_for_bbox west south east north zoom))\<rparr>"

definition env_down :: "bytes env" where
  "env_down =
     \<lparr>http_get = (\<lambda>k. Inr \<lparr>status_code = 503, content = []\<rparr>),
      image_open = (\<lambda>data. Inr data),
      convert_rgb = (\<lambda>img. img),
      image_save_png = (\<lambda>img. Inr img),
      mercantile_tiles = (\<lambda>west south east north zoom. Inr (tiles_for_bbox west south east north zoom))\<rparr>"

definition env_grid :: "bytes env" where
  "env_grid =
     \<lparr>http_get = (\<lambda>(z, x, y). Inr \<lparr>status_code = 200,
                                      content = (if (x, y) = (3, 4) then ''tile-3-4''
                                                 else if (x, y) = (4, 4) then ''tile-4-4''
                                                 else ''tile'')\<rparr>),
      image_open = (\<lambda>data. Inr data),
      convert_rgb = (\<lambda>img. img),
      image_save_png = (\<lambda>img. Inr img),
      mercantile_tiles = (\<lambda>west south east north zoom. Inr (tiles_for_bbox west south east north zoom))\<rparr>"

section \<open>Properties\<close>

subsection \<open>Helper facts\<close>

lemma clamp_min_max: "min (max v (- 0.9999)) 0.9999 = clamp (- 0.9999) 0.9999 v"
  by (simp add: clamp_def min_def max_def)

lemma project_siny_bounds:
  "- (9999 / 10000) \<le> project_siny lat" "project_siny lat \<le> 9999 / 10000"
  by (simp_all add: project_siny_def clamp_def)

lemma project_ratio_pos: "0 < (1 + project_siny lat) / (1 - project_siny lat)"
proof -
  have "0 < 1 + project_siny lat" "0 < 1 - project_siny lat"
    using project_siny_bounds [of lat] by linarith+
  then show ?thesis by simp
qed

lemma lonlat_to_pixels_Inr:
  "lonlat_to_pixels lon lat zoom = Inr (project_x lon zoom, project_y lat zoom)"
proof -
  have ne: "1 - project_siny lat \<noteq> 0"
    using project_siny_bounds [of lat] by linarith
  have pos: "\<not> (1 + project_siny lat) / (1 - project_siny lat) \<le> 0"
    using project_ratio_pos [of lat] by linarith
  show ?thesis
    unfolding lonlat_to_pixels_def Let_def clamp_min_max
    using ne pos
    by (simp add: project_x_def project_y_def project_scale_def project_siny_def)
qed

lemma ebind_simps:
  "ebind (Inl e) f = Inl e" "ebind (Inr v) f = f v"
  by (simp_all add: ebind_def)

lemma py_min_Min: "xs \<noteq> [] \<Longrightarrow> py_min xs = Inr (Min (set xs))"
  by (cases xs) (simp_all add: py_min_def Min.set_eq_fold [symmetric])

lemma py_max_Max: "xs \<noteq> [] \<Longrightarrow> py_max xs = Inr (Max (set xs))"
  by (cases xs) (simp_all add: py_max_def Max.set_eq_fold [symmetric])

lemma py_min_Nil: "py_min [] = Inl ValueError"
  by (simp add: py_min_def)

lemma traverse_lonlat:
  "traverse (\<lambda>(lat, lon). lonlat_to_pixels lon lat zoom) points =
     Inr (map (\<lambda>(lat, lon). (project_x lon zoom, project_y lat zoom)) points)"
  by (induction points) (auto simp: lonlat_to_pixels_Inr)

lemma pixel_bbox_eq:
  assumes "points \<noteq> []"
  shows "pixel_bbox lonlat_to_pixels (-) zoom points =
           Inr (bbox_width zoom points, bbox_height zoom points)"
proof -
  let ?px = "map (\<lambda>(lat, lon). (project_x lon zoom, project_y lat zoom)) points"
  let ?xs = "map (\<lambda>(lat, lon). project_x lon zoom) points"
  let ?ys = "map (\<lambda>(lat, lon). project_y lat zoom) points"
  have mx: "fst \<circ> (\<lambda>(lat, lon). (project_x lon zoom, project_y lat zoom))
              = (\<lambda>(lat, lon). project_x lon zoom)"
    and my: "snd \<circ> (\<lambda>(lat, lon). (project_x lon zoom, project_y lat zoom))
              = (\<lambda>(lat, lon). project_y lat zoom)"
    by (auto simp: fun_eq_iff)
  have nx: "?xs \<noteq> []" and ny: "?ys \<noteq> []" using assms by simp_all
  have "pixel_bbox lonlat_to_pixels (-) zoom points =
          ebind (py_min ?xs) (\<lambda>min_x. ebind (py_max ?xs) (\<lambda>max_x.
          ebind (py_min ?ys) (\<lambda>min_y. ebind (py_max ?ys) (\<lambda>max_y.
            Inr (max_x - min_x, max_y - min_y)))))"
    unfolding pixel_bbox_def traverse_lonlat ebind_simps unzip2_def
    using assms by (simp add: ebind_simps mx my)
  also have "\<dots> = Inr (Max (set ?xs) - Min (set ?xs), Max (set ?ys) - Min (set ?ys))"
    unfolding py_min_Min [OF nx] py_max_Max [OF nx] py_min_Min [OF ny] py_max_Max [OF ny]
      ebind_simps ..
  finally show ?thesis
    by (simp add: bbox_width_def bbox_height_def)
qed

lemma pixel_bbox_Nil: "pixel_bbox proj fsub zoom [] = Inl ValueError"
  by (simp add: pixel_bbox_def ebind_simps unzip2_def)

lemma choose_zoom_loop_find:
  assumes "points \<noteq> []"
  shows "choose_zoom_loop lonlat_to_pixels (-) zs points =
     Inr (case find (\<lambda>z. fits z points) zs of Some z \<Rightarrow> z | None \<Rightarrow> 4)"
  using assms
  by (induction zs) (simp_all add: pixel_bbox_eq fits_def TARGET_WIDTH_def TARGET_HEIGHT_def MIN_ZOOM_def)

lemma choose_zoom_unfold:
  "choose_zoom points padding = choose_zoom_loop lonlat_to_pixels (-) zoom_candidates points"
  by (simp add: choose_zoom_def choose_zoom_fp_def)

lemma zoom_candidates_eq: "zoom_candidates = [12, 11, 10, 9, 8, 7, 6, 5, 4]"
  by (simp add: zoom_candidates_def MIN_ZOOM_def MAX_ZOOM_def upt_rec)

lemma choose_zoom_Nil: "choose_zoom [] padding = Inl ValueError"
  by (simp add: choose_zoom_unfold zoom_candidates_eq pixel_bbox_Nil)


lemma find_desc:
  "(case find P (rev [a ..< n]) of
      Some z \<Rightarrow> P z \<and> a \<le> z \<and> z < n \<and> (\<forall>z'. z < z' \<and> z' < n \<longrightarrow> \<not> P z')
    | None \<Rightarrow> (\<forall>z'. a \<le> z' \<and> z' < n \<longrightarrow> \<not> P z'))"
proof (induction n)
  case 0
  then show ?case by simp
next
  case (Suc n)
  show ?case
  proof (cases "a \<le> n")
    case True
    then have r: "rev [a ..< Suc n] = n # rev [a ..< n]" by simp
    show ?thesis
    proof (cases "P n")
      case True
      then show ?thesis using \<open>a \<le> n\<close> unfolding r by auto
    next
      case False
      then show ?thesis using Suc \<open>a \<le> n\<close> unfolding r
        by (auto split: option.splits simp: less_Suc_eq)
    qed
  next
    case False
    then show ?thesis by auto
  qed
qed

lemma pixel_bbox_single: "fits z [p]"
  by (simp add: fits_def bbox_width_def bbox_height_def)

subsection \<open>The projection\<close>

text \<open>
  Claim C2.  For every longitude, latitude and zoom level (so in particular for a
  longitude in [-180, 180] and a latitude strictly between -90 and 90),
  \<open>lonlat_to_pixels\<close> raises nothing and returns exactly
  x = (longitude + 180) / 360 * scale and
  y = (0.5 - ln ((1 + siny) / (1 - siny)) / (4 pi)) * scale, where scale = 256 * 2^zoom
  and siny is sin (latitude * pi / 180) clamped to [-0.9999, 0.9999].  Neither the
  division nor the logarithm can fail, since the clamp keeps 1 - siny and the quotient
  positive.
\<close>

theorem lonlat_to_pixels_formula:
  "lonlat_to_pixels lon lat z =
     Inr ((lon + 180) / 360 * (256 * 2 ^ z),
          (0.5 - ln ((1 + clamp (- 0.9999) 0.9999 (sin (lat * pi / 180)))
                      / (1 - clamp (- 0.9999) 0.9999 (sin (lat * pi / 180)))) / (4 * pi))
            * (256 * 2 ^ z))"
  by (simp add: lonlat_to_pixels_Inr project_x_def project_y_def project_scale_def project_siny_def)

subsection \<open>The zoom selector\<close>

lemma traverse_ok:
  assumes "\<forall>a \<in> set as. \<exists>b. f a = Inr b"
  shows "traverse f as = Inr (map (\<lambda>a. projr (f a)) as)"
  using assms by (induction as) auto

lemma pixel_bbox_fp_eq:
  assumes ne: "points \<noteq> []"
    and ok: "\<forall>(lat, lon) \<in> set points. \<exists>p. proj lon lat zoom = Inr p"
  shows "pixel_bbox proj fsub zoom points =
           Inr (bbox_width_fp proj fsub zoom points, bbox_height_fp proj fsub zoom points)"
proof -
  let ?f = "\<lambda>(lat, lon). proj lon lat zoom"
  let ?xs = "map (\<lambda>(lat, lon). fst (projr (proj lon lat zoom))) points"
  let ?ys = "map (\<lambda>(lat, lon). snd (projr (proj lon lat zoom))) points"
  have "\<forall>a \<in> set points. \<exists>b. ?f a = Inr b" using ok by auto
  then have t: "traverse ?f points = Inr (map (\<lambda>a. projr (?f a)) points)"
    by (rule traverse_ok)
  have mx: "map fst (map (\<lambda>a. projr (?f a)) points) = ?xs"
    and my: "map snd (map (\<lambda>a. projr (?f a)) points) = ?ys"
    by (simp_all add: case_prod_beta)
  have nx: "?xs \<noteq> []" and ny: "?ys \<noteq> []" using ne by simp_all
  have u: "unzip2 (map (\<lambda>a. projr (?f a)) points) = Inr (?xs, ?ys)"
    unfolding unzip2_def mx my using ne by simp
  have "pixel_bbox proj fsub zoom points =
          ebind (py_min ?xs) (\<lambda>min_x. ebind (py_max ?xs) (\<lambda>max_x.
          ebind (py_min ?ys) (\<lambda>min_y. ebind (py_max ?ys) (\<lambda>max_y.
            Inr (fsub max_x min_x, fsub max_y min_y)))))"
    unfolding pixel_bbox_def t ebind_simps u by simp
  also have "\<dots> = Inr (fsub (Max (set ?xs)) (Min (set ?xs)), fsub (Max (set ?ys)) (Min (set ?ys)))"
    unfolding py_min_Min [OF nx] py_max_Max [OF nx] py_min_Min [OF ny] py_max_Max [OF ny]
      ebind_simps ..
  finally show ?thesis
    by (simp add: bbox_width_fp_def bbox_height_fp_def)
qed

lemma choose_zoom_loop_fp_find:
  assumes "points \<noteq> []"
    and "\<forall>z \<in> set zs. \<forall>(lat, lon) \<in> set points. \<exists>p. proj lon lat z = Inr p"
  shows "choose_zoom_loop proj fsub zs points =
     Inr (case find (\<lambda>z. fits_fp proj fsub z points) zs of Some z \<Rightarrow> z | None \<Rightarrow> 4)"
  using assms
proof (induction zs)
  case Nil
  then show ?case by (simp add: MIN_ZOOM_def)
next
  case (Cons z zs)
  have b: "pixel_bbox proj fsub z points =
           Inr (bbox_width_fp proj fsub z points, bbox_height_fp proj fsub z points)"
    using Cons.prems by (intro pixel_bbox_fp_eq) simp_all
  have "choose_zoom_loop proj fsub zs points =
     Inr (case find (\<lambda>z. fits_fp proj fsub z points) zs of Some z \<Rightarrow> z | None \<Rightarrow> 4)"
    using Cons.prems by (intro Cons.IH) simp_all
  then show ?case
    by (simp add: b fits_fp_def TARGET_WIDTH_def TARGET_HEIGHT_def)
qed

lemma fits_fp_exact: "fits_fp lonlat_to_pixels (-) z points = fits z points"
  by (simp add: fits_fp_def fits_def bbox_width_fp_def bbox_height_fp_def bbox_width_def
      bbox_height_def lonlat_to_pixels_Inr)

text \<open>
  Claim C1.  For a non-empty sequence of points, \<open>choose_zoom\<close> goes through the
  candidate zoom levels 12, 11, ..., 4 in this order and returns the first of them at which
  the pixel bounding box of the projected points, as the program computes it, is at
  most 1200 wide and at most 800 high; this is the highest such zoom level in [4, 12].
  When no candidate fits, it returns 4.  This holds for any rounding of the projection
  and of the subtraction, provided the projection raises nothing on the points (with
  exact arithmetic it never does); \<open>choose_zoom\<close> with exact arithmetic is one instance.
\<close>

theorem choose_zoom_first_fit:
  assumes "points \<noteq> []"
    and "\<forall>z \<in> set zoom_candidates. \<forall>(lat, lon) \<in> set points. \<exists>p. proj lon lat z = Inr p"
  shows "zoom_candidates = [12, 11, 10, 9, 8, 7, 6, 5, 4] \<and>
     choose_zoom_fp proj fsub points padding =
       Inr (case find (\<lambda>z. fits_fp proj fsub z points) zoom_candidates of
              Some z \<Rightarrow> z | None \<Rightarrow> 4) \<and>
     (\<exists>z. choose_zoom_fp proj fsub points padding = Inr z \<and> 4 \<le> z \<and> z \<le> 12 \<and>
          (\<forall>z'. z < z' \<and> z' \<le> 12 \<longrightarrow> \<not> fits_fp proj fsub z' points) \<and>
          (fits_fp proj fsub z points \<or>
             (z = 4 \<and> (\<forall>z'. 4 \<le> z' \<and> z' \<le> 12 \<longrightarrow> \<not> fits_fp proj fsub z' points)))) \<and>
     choose_zoom points padding = choose_zoom_fp lonlat_to_pixels (-) points padding"
proof -
  let ?P = "\<lambda>z. fits_fp proj fsub z points"
  have cz: "choose_zoom_fp proj fsub points padding =
       Inr (case find ?P zoom_candidates of Some z \<Rightarrow> z | None \<Rightarrow> 4)"
    unfolding choose_zoom_fp_def by (rule choose_zoom_loop_fp_find [OF assms])
  have zc: "zoom_candidates = rev [4 ..< 13]"
    by (simp add: zoom_candidates_def MIN_ZOOM_def MAX_ZOOM_def)
  have third: "\<exists>z. choose_zoom_fp proj fsub points padding = Inr z \<and> 4 \<le> z \<and> z \<le> 12 \<and>
          (\<forall>z'. z < z' \<and> z' \<le> 12 \<longrightarrow> \<not> fits_fp proj fsub z' points) \<and>
          (fits_fp proj fsub z points \<or>
             (z = 4 \<and> (\<forall>z'. 4 \<le> z' \<and> z' \<le> 12 \<longrightarrow> \<not> fits_fp proj fsub z' points)))"
  proof (cases "find ?P (rev [4 ..< 13])")
    case None
    have no: "\<forall>z'. 4 \<le> z' \<and> z' < 13 \<longrightarrow> \<not> fits_fp proj fsub z' points"
      using find_desc [where P = ?P and a = 4 and n = 13] unfolding None by simp
    have "choose_zoom_fp proj fsub points padding = Inr 4" unfolding cz zc None by simp
    with no show ?thesis by auto
  next
    case (Some z)
    have z: "fits_fp proj fsub z points" "4 \<le> z" "z < 13"
      "\<forall>z'. z < z' \<and> z' < 13 \<longrightarrow> \<not> fits_fp proj fsub z' points"
      using find_desc [where P = ?P and a = 4 and n = 13] unfolding Some by simp_all
    have "choose_zoom_fp proj fsub points padding = Inr z" unfolding cz zc Some by simp
    with z show ?thesis by auto
  qed
  have inst: "choose_zoom points padding = choose_zoom_fp lonlat_to_pixels (-) points padding"
    by (simp add: choose_zoom_def)
  show ?thesis using zoom_candidates_eq cz third inst by blast
qed

theorem choose_zoom_first_fit_witness:
  "[(0, 0)] \<noteq> ([] :: point list) \<and> choose_zoom_fp lonlat_to_pixels (-) [(0, 0)] 0.1 = Inr 12 \<and>
   choose_zoom [(0, 0)] 0.1 = Inr 12"
proof -
  note t = choose_zoom_first_fit [of "[(0, 0)]" lonlat_to_pixels "(-)" "0.1"]
  have h: "\<forall>z \<in> set zoom_candidates. \<forall>(lat, lon) \<in> set [(0, 0)].
             \<exists>p. lonlat_to_pixels lon lat z = Inr p"
    by (simp add: lonlat_to_pixels_Inr)
  have f: "fits_fp lonlat_to_pixels (-) 12 [(0, 0)]"
    by (simp add: fits_fp_exact pixel_bbox_single)
  have c: "choose_zoom_fp lonlat_to_pixels (-) [(0, 0)] 0.1 = Inr 12"
    using t [OF _ h] f by (simp add: zoom_candidates_eq)
  have d: "choose_zoom [(0, 0)] 0.1 = Inr 12"
    using t [OF _ h] c by simp
  show ?thesis using c d by simp
qed

subsection \<open>Monotonicity of the projection\<close>

lemma project_scale_pos: "0 < project_scale z"
  by (simp add: project_scale_def)

lemma project_x_strict_mono: "lon1 < lon2 \<Longrightarrow> project_x lon1 z < project_x lon2 z"
  using project_scale_pos [of z] by (simp add: project_x_def divide_strict_right_mono)

lemma project_x_mono: "lon1 \<le> lon2 \<Longrightarrow> project_x lon1 z \<le> project_x lon2 z"
  using project_scale_pos [of z] by (simp add: project_x_def divide_right_mono)

lemma clamp_mono: "lo \<le> hi \<Longrightarrow> u \<le> v \<Longrightarrow> clamp lo hi u \<le> clamp lo hi v"
  by (simp add: clamp_def)

lemma deg_range: "- 90 \<le> lat \<Longrightarrow> lat \<le> 90 \<Longrightarrow> - (pi / 2) \<le> lat * pi / 180 \<and> lat * pi / 180 \<le> pi / 2"
proof -
  assume a: "- 90 \<le> lat" "lat \<le> 90"
  have "lat * pi \<le> 90 * pi" using a by (simp add: mult_right_mono)
  moreover have "(- 90) * pi \<le> lat * pi" using a by (intro mult_right_mono) simp_all
  ultimately show ?thesis by simp
qed

lemma sin_deg_mono:
  assumes "- 90 \<le> a" "a \<le> b" "b \<le> 90"
  shows "sin (a * pi / 180) \<le> sin (b * pi / 180)"
proof -
  have ra: "- (pi / 2) \<le> a * pi / 180 \<and> a * pi / 180 \<le> pi / 2"
    using assms by (intro deg_range) linarith+
  have rb: "- (pi / 2) \<le> b * pi / 180 \<and> b * pi / 180 \<le> pi / 2"
    using assms by (intro deg_range) linarith+
  have "a * pi / 180 \<le> b * pi / 180" using assms by (simp add: mult_right_mono)
  then show ?thesis using ra rb by (simp add: sin_mono_le_eq)
qed

lemma sin_deg_strict_mono:
  assumes "- 90 \<le> a" "a < b" "b \<le> 90"
  shows "sin (a * pi / 180) < sin (b * pi / 180)"
proof -
  have ra: "- (pi / 2) \<le> a * pi / 180 \<and> a * pi / 180 \<le> pi / 2"
    using assms by (intro deg_range) linarith+
  have rb: "- (pi / 2) \<le> b * pi / 180 \<and> b * pi / 180 \<le> pi / 2"
    using assms by (intro deg_range) linarith+
  have "a * pi / 180 < b * pi / 180" using assms by simp
  then show ?thesis using ra rb by (simp add: sin_mono_less_eq)
qed

lemma cos_lower: "1 - d\<^sup>2 / 2 \<le> cos (d::real)"
proof -
  have "cos d = cos (2 * (d / 2))" by simp
  also have "\<dots> = 1 - 2 * (sin (d / 2))\<^sup>2" by (rule cos_double_sin)
  finally have c: "cos d = 1 - 2 * (sin (d / 2))\<^sup>2" .
  have "\<bar>sin (d / 2)\<bar> \<le> \<bar>d / 2\<bar>" by (rule abs_sin_x_le_abs_x)
  then have "(sin (d / 2))\<^sup>2 \<le> (d / 2)\<^sup>2" by (rule abs_le_square_iff [THEN iffD1])
  then show ?thesis unfolding c by (simp add: power2_eq_square field_simps)
qed

lemma sin_near_pole:
  assumes "90 \<le> lat" "lat \<le> 90 + 1 / 10"
  shows "9999 / 10000 \<le> sin (lat * pi / 180)"
proof -
  define d where "d = (lat - 90) * pi / 180"
  have d0: "0 \<le> d" using assms by (simp add: d_def)
  have "(lat - 90) * pi \<le> (1 / 10) * 4"
    using assms pi_less_4 pi_gt_zero by (intro mult_mono) simp_all
  then have d1: "d \<le> 1 / 400" unfolding d_def by linarith
  have "d\<^sup>2 \<le> (1 / 400)\<^sup>2" using d0 d1 by (intro power_mono) simp_all
  then have "9999 / 10000 \<le> 1 - d\<^sup>2 / 2" by (simp add: power2_eq_square)
  also have "\<dots> \<le> cos d" by (rule cos_lower)
  also have "cos d = sin (pi / 2 + d)" by (simp add: sin_add)
  also have "pi / 2 + d = lat * pi / 180" by (simp add: d_def field_simps)
  finally show ?thesis .
qed

lemma project_siny_north:
  assumes "90 \<le> lat" "lat \<le> 90 + 1 / 10"
  shows "project_siny lat = 9999 / 10000"
  using sin_near_pole [OF assms] by (simp add: project_siny_def clamp_def)

lemma project_siny_south:
  assumes "- 90 - 1 / 10 \<le> lat" "lat \<le> - 90"
  shows "project_siny lat = - (9999 / 10000)"
proof -
  have "9999 / 10000 \<le> sin ((- lat) * pi / 180)"
    using assms by (intro sin_near_pole) simp_all
  then have "sin (lat * pi / 180) \<le> - (9999 / 10000)" by simp
  then show ?thesis by (simp add: project_siny_def clamp_def)
qed

lemma project_siny_mono:
  assumes "- 90 - 1 / 10 \<le> a" "a \<le> b" "b \<le> 90 + 1 / 10"
  shows "project_siny a \<le> project_siny b"
proof -
  consider "90 \<le> b" | "a \<le> - 90" | "- 90 \<le> a" "b \<le> 90" by linarith
  then show ?thesis
  proof cases
    case 1
    then show ?thesis using project_siny_north [of b] assms project_siny_bounds(2) [of a] by simp
  next
    case 2
    then show ?thesis using project_siny_south [of a] assms project_siny_bounds(1) [of b] by simp
  next
    case 3
    then show ?thesis unfolding project_siny_def
      using assms by (intro clamp_mono sin_deg_mono) simp_all
  qed
qed

lemma ratio_mono:
  fixes s t :: real
  assumes "s \<le> t" "- 1 < s" "t < 1"
  shows "(1 + s) / (1 - s) \<le> (1 + t) / (1 - t)"
  using assms by (intro frac_le) simp_all

lemma ratio_strict_mono:
  fixes s t :: real
  assumes "s < t" "- 1 < s" "t < 1"
  shows "(1 + s) / (1 - s) < (1 + t) / (1 - t)"
  using assms by (intro frac_less) simp_all

lemma project_y_of_siny_mono:
  assumes "project_siny a \<le> project_siny b"
  shows "project_y b z \<le> project_y a z"
proof -
  have ba: "- 1 < project_siny a" "project_siny b < 1"
    using project_siny_bounds(1) [of a] project_siny_bounds(2) [of b] by linarith+
  have "ln ((1 + project_siny a) / (1 - project_siny a))
          \<le> ln ((1 + project_siny b) / (1 - project_siny b))"
    using ratio_mono [OF assms ba] project_ratio_pos [of a] project_ratio_pos [of b] by simp
  then have "0.5 - ln ((1 + project_siny b) / (1 - project_siny b)) / (4 * pi)
      \<le> 0.5 - ln ((1 + project_siny a) / (1 - project_siny a)) / (4 * pi)"
    by (simp add: divide_right_mono)
  then show ?thesis unfolding project_y_def
    using project_scale_pos [of z] by (simp add: mult_right_mono)
qed

lemma project_y_of_siny_strict:
  assumes "project_siny a < project_siny b"
  shows "project_y b z < project_y a z"
proof -
  have ba: "- 1 < project_siny a" "project_siny b < 1"
    using project_siny_bounds(1) [of a] project_siny_bounds(2) [of b] by linarith+
  have "ln ((1 + project_siny a) / (1 - project_siny a))
          < ln ((1 + project_siny b) / (1 - project_siny b))"
    using ratio_strict_mono [OF assms ba] project_ratio_pos [of a] project_ratio_pos [of b] by simp
  then have "0.5 - ln ((1 + project_siny b) / (1 - project_siny b)) / (4 * pi)
      < 0.5 - ln ((1 + project_siny a) / (1 - project_siny a)) / (4 * pi)"
    by (simp add: divide_strict_right_mono)
  then show ?thesis unfolding project_y_def
    using project_scale_pos [of z] by (simp add: mult_strict_right_mono)
qed

lemma project_y_antimono:
  assumes "- 90 - 1 / 10 \<le> a" "a \<le> b" "b \<le> 90 + 1 / 10"
  shows "project_y b z \<le> project_y a z"
  by (rule project_y_of_siny_mono) (rule project_siny_mono [OF assms])

lemma project_siny_unclamped:
  "- (9999 / 10000) \<le> sin (lat * pi / 180) \<Longrightarrow> sin (lat * pi / 180) \<le> 9999 / 10000
     \<Longrightarrow> project_siny lat = sin (lat * pi / 180)"
  by (simp add: project_siny_def clamp_def)

lemma project_origin: "project_x 0 z = 128 * 2 ^ z" "project_y 0 z = 128 * 2 ^ z"
  by (simp_all add: project_x_def project_y_def project_siny_def clamp_def project_scale_def)


text \<open>
  Claim C6.  At a fixed zoom the x coordinate of the projection increases strictly with
  the longitude, and the y coordinate decreases with the latitude (north is up) over
  the latitudes, from -90 to 90 degrees: it never increases, and it decreases strictly
  between two latitudes whose sines are not clamped (up to about 89.19 degrees).  At
  latitude 0 and longitude 0 the result is exactly (128 * 2^z, 128 * 2^z).
\<close>

theorem projection_monotone:
  "lonlat_to_pixels lon lat z = Inr (project_x lon z, project_y lat z) \<and>
   (lon1 < lon2 \<longrightarrow> project_x lon1 z < project_x lon2 z) \<and>
   (- 90 \<le> lat1 \<and> lat1 \<le> lat2 \<and> lat2 \<le> 90 \<longrightarrow> project_y lat2 z \<le> project_y lat1 z) \<and>
   (- 90 \<le> lat1 \<and> lat1 < lat2 \<and> lat2 \<le> 90 \<and>
      - 0.9999 \<le> sin (lat1 * pi / 180) \<and> sin (lat2 * pi / 180) \<le> 0.9999
        \<longrightarrow> project_y lat2 z < project_y lat1 z) \<and>
   lonlat_to_pixels 0 0 z = Inr (128 * 2 ^ z, 128 * 2 ^ z)"
proof -
  have weak: "project_y lat2 z \<le> project_y lat1 z"
    if "- 90 \<le> lat1 \<and> lat1 \<le> lat2 \<and> lat2 \<le> 90"
    using that by (intro project_y_antimono) simp_all
  have strict: "project_y lat2 z < project_y lat1 z"
    if h: "- 90 \<le> lat1 \<and> lat1 < lat2 \<and> lat2 \<le> 90 \<and>
      - 0.9999 \<le> sin (lat1 * pi / 180) \<and> sin (lat2 * pi / 180) \<le> 0.9999"
  proof -
    have lt: "sin (lat1 * pi / 180) < sin (lat2 * pi / 180)"
      using h by (intro sin_deg_strict_mono) simp_all
    have "project_siny lat1 = sin (lat1 * pi / 180)"
      using h lt by (intro project_siny_unclamped) simp_all
    moreover have "project_siny lat2 = sin (lat2 * pi / 180)"
      using h lt by (intro project_siny_unclamped) simp_all
    ultimately show ?thesis using lt by (intro project_y_of_siny_strict) simp
  qed
  show ?thesis
    using weak strict project_x_strict_mono [of lon1 lon2 z]
    by (simp add: lonlat_to_pixels_Inr project_origin)
qed

theorem projection_monotone_witness:
  "project_x 0 3 < project_x 1 3 \<and> project_y 30 3 \<le> project_y (- 30) 3 \<and>
   project_y 30 3 < project_y (- 30) 3 \<and> lonlat_to_pixels 0 0 3 = Inr (1024, 1024)"
proof -
  have s: "sin (30 * pi / 180) = 1 / 2" "sin (- 30 * pi / 180) = - (1 / 2)"
    using sin_30 by simp_all
  show ?thesis
    using projection_monotone [of 0 0 3 0 1 "- 30" 30] s by (simp add: project_origin)
qed


subsection \<open>The height of a bounding box, by the mean value theorem\<close>

lemma merc_deriv:
  assumes "0 < cos x"
  shows "((\<lambda>x. ln ((1 + sin x) / (1 - sin x))) has_real_derivative 2 / cos x) (at x)"
proof -
  have sq: "(sin x)\<^sup>2 + (cos x)\<^sup>2 = 1" by simp
  have "(sin x)\<^sup>2 < 1" using assms sq by (smt (verit) zero_less_power)
  then have "\<bar>sin x\<bar> < 1" by (simp add: abs_square_less_1)
  then have s: "- 1 < sin x" "sin x < 1" by linarith+
  have c2: "(cos x)\<^sup>2 = (1 - sin x) * (1 + sin x)"
    using sq by (simp add: power2_eq_square algebra_simps)
  have "((\<lambda>x. ln ((1 + sin x) / (1 - sin x))) has_real_derivative
          ((cos x * (1 - sin x) - (1 + sin x) * (- cos x)) / ((1 - sin x) * (1 - sin x)))
            / ((1 + sin x) / (1 - sin x))) (at x)"
    using s by (auto intro!: derivative_eq_intros)
  moreover have "((cos x * (1 - sin x) - (1 + sin x) * (- cos x)) / ((1 - sin x) * (1 - sin x)))
            / ((1 + sin x) / (1 - sin x)) = 2 / cos x"
  proof -
    have num: "cos x * (1 - sin x) - (1 + sin x) * (- cos x) = 2 * cos x"
      by (simp add: algebra_simps)
    have nz: "1 - sin x \<noteq> 0" "1 + sin x \<noteq> 0" using s by linarith+
    have "((cos x * (1 - sin x) - (1 + sin x) * (- cos x)) / ((1 - sin x) * (1 - sin x)))
            / ((1 + sin x) / (1 - sin x)) = 2 * cos x / ((1 - sin x) * (1 + sin x))"
      unfolding num using nz by (simp add: divide_simps)
    also have "\<dots> = 2 * cos x / (cos x)\<^sup>2" by (simp add: c2)
    also have "\<dots> = 2 / cos x" using assms by (simp add: power2_eq_square)
    finally show ?thesis .
  qed
  ultimately show ?thesis by simp
qed

lemma merc_mvt:
  assumes "- (pi / 2) < a" "a < b" "b < pi / 2"
  shows "\<exists>c. a < c \<and> c < b \<and>
     ln ((1 + sin b) / (1 - sin b)) - ln ((1 + sin a) / (1 - sin a)) = (b - a) * (2 / cos c)"
proof (rule MVT2 [OF assms(2)])
  fix x assume "a \<le> x" "x \<le> b"
  then have "0 < cos x" using assms by (intro cos_gt_zero_pi) linarith+
  then show "((\<lambda>x. ln ((1 + sin x) / (1 - sin x))) has_real_derivative 2 / cos x) (at x)"
    by (rule merc_deriv)
qed

subsection \<open>The two activations at (46.0, 7.0) and (46.5, 7.5)\<close>

lemma sin_deg_mid:
  assumes "0 \<le> lat" "lat \<le> 60"
  shows "0 \<le> sin (lat * pi / 180)" "sin (lat * pi / 180) \<le> 9999 / 10000"
proof -
  have "sin (0 * pi / 180) \<le> sin (lat * pi / 180)"
    using assms by (intro sin_deg_mono) simp_all
  then show "0 \<le> sin (lat * pi / 180)" by simp
  have "sin (lat * pi / 180) \<le> sin (60 * pi / 180)"
    using assms by (intro sin_deg_mono) simp_all
  also have "\<dots> = sqrt 3 / 2" using sin_60 by simp
  also have "sqrt 3 \<le> 19 / 10" by (rule real_le_lsqrt) (simp_all add: power2_eq_square)
  finally show "sin (lat * pi / 180) \<le> 9999 / 10000" by simp
qed

lemma project_y_diff:
  assumes "0 \<le> a" "a < b" "b \<le> 60"
  shows "\<exists>c. a * pi / 180 < c \<and> c < b * pi / 180 \<and>
           project_y a z - project_y b z = (b - a) * project_scale z / (360 * cos c)"
proof -
  have sa: "project_siny a = sin (a * pi / 180)"
    using sin_deg_mid [of a] assms by (intro project_siny_unclamped) simp_all
  have sb: "project_siny b = sin (b * pi / 180)"
    using sin_deg_mid [of b] assms by (intro project_siny_unclamped) simp_all
  have "0 \<le> a * pi" using assms by simp
  then have ra: "- (pi / 2) < a * pi / 180" using pi_gt_zero by linarith
  have rb: "b * pi / 180 < pi / 2"
  proof -
    have "b * pi \<le> 60 * pi" using assms by (intro mult_right_mono) simp_all
    then show ?thesis using pi_gt_zero by simp
  qed
  have ab: "a * pi / 180 < b * pi / 180" using assms by simp
  from merc_mvt [OF ra ab rb] obtain c where c: "a * pi / 180 < c" "c < b * pi / 180"
    and d: "ln ((1 + sin (b * pi / 180)) / (1 - sin (b * pi / 180)))
            - ln ((1 + sin (a * pi / 180)) / (1 - sin (a * pi / 180)))
          = (b * pi / 180 - a * pi / 180) * (2 / cos c)"
    by blast
  have alg1: "(h - la / p) * s - (h - lb / p) * s = (lb - la) / p * s" for h la lb p s :: real
    by (simp add: left_diff_distrib diff_divide_distrib)
  have alg2: "(b * p / 180 - a * p / 180) * (2 / k) / (4 * p) * s = (b - a) * s / (360 * k)"
    if "p \<noteq> 0" for p k s :: real
  proof -
    have "(b * p / 180 - a * p / 180) * (2 / k) / (4 * p) * s
        = ((b - a) * s / (360 * k)) * (p / p)"
      by (simp add: left_diff_distrib diff_divide_distrib)
    then show ?thesis using that by simp
  qed
  have "project_y a z - project_y b z
      = (ln ((1 + sin (b * pi / 180)) / (1 - sin (b * pi / 180)))
            - ln ((1 + sin (a * pi / 180)) / (1 - sin (a * pi / 180)))) / (4 * pi)
          * project_scale z"
    unfolding project_y_def sa sb by (rule alg1)
  also have "\<dots> = (b * pi / 180 - a * pi / 180) * (2 / cos c) / (4 * pi) * project_scale z"
    unfolding d ..
  also have "\<dots> = (b - a) * project_scale z / (360 * cos c)"
    by (rule alg2) simp
  finally show ?thesis using c by blast
qed


lemma width_46: "bbox_width z [(46, 7), (46.5, 7.5)] = project_scale z / 720"
proof -
  have le: "project_x 7 z \<le> project_x 7.5 z" by (rule project_x_mono) simp
  have "bbox_width z [(46, 7), (46.5, 7.5)] = project_x 7.5 z - project_x 7 z"
    using le by (simp add: bbox_width_def max_def min_def)
  also have "\<dots> = project_scale z / 720" by (simp add: project_x_def)
  finally show ?thesis .
qed

lemma height_46:
  "\<exists>c. pi / 4 < c \<and> c < pi / 3 \<and>
     bbox_height z [(46, 7), (46.5, 7.5)] = project_scale z / (720 * cos c)"
proof -
  have le: "project_y 46.5 z \<le> project_y 46 z" by (rule project_y_antimono) simp_all
  have h: "bbox_height z [(46, 7), (46.5, 7.5)] = project_y 46 z - project_y 46.5 z"
    using le by (simp add: bbox_height_def max_def min_def)
  obtain c where c: "46 * pi / 180 < c" "c < 46.5 * pi / 180"
    and d: "project_y 46 z - project_y 46.5 z = (46.5 - 46) * project_scale z / (360 * cos c)"
    using project_y_diff [of 46 "46.5" z] by auto
  have "pi / 4 < 46 * pi / 180" using pi_gt_zero by simp
  then have c1: "pi / 4 < c" using c by linarith
  have "46.5 * pi / 180 < pi / 3" using pi_gt_zero by simp
  then have c2: "c < pi / 3" using c by linarith
  have "bbox_height z [(46, 7), (46.5, 7.5)] = project_scale z / (720 * cos c)"
    unfolding h d by simp
  then show ?thesis using c1 c2 by blast
qed

lemma cos_between:
  assumes "pi / 4 < c" "c < pi / 3"
  shows "1 / 2 < cos c" "cos c < 91 / 100"
proof -
  have "cos (pi / 3) < cos c"
    using assms pi_gt_zero by (intro cos_monotone_0_pi) linarith+
  then show "1 / 2 < cos c" by (simp add: cos_60)
  have "cos c < cos (pi / 4)"
    using assms pi_gt_zero by (intro cos_monotone_0_pi) linarith+
  also have "\<dots> = sqrt 2 / 2" by (rule cos_45)
  also have "sqrt 2 \<le> 182 / 100" by (rule real_le_lsqrt) (simp_all add: power2_eq_square)
  finally show "cos c < 91 / 100" by simp
qed

lemma fits_46:
  "\<not> fits 12 [(46, 7), (46.5, 7.5)]" "\<not> fits 11 [(46, 7), (46.5, 7.5)]"
  "fits 10 [(46, 7), (46.5, 7.5)]"
proof -
  show "\<not> fits 12 [(46, 7), (46.5, 7.5)]"
    unfolding fits_def width_46 by (simp add: project_scale_def)
  obtain c where c: "pi / 4 < c" "c < pi / 3"
    and h: "bbox_height 11 [(46, 7), (46.5, 7.5)] = project_scale 11 / (720 * cos c)"
    using height_46 [of 11] by blast
  have "800 * (720 * cos c) < 800 * (720 * (91 / 100))"
    using cos_between(2) [OF c] by simp
  also have "\<dots> \<le> project_scale 11" by (simp add: project_scale_def)
  finally have "800 < project_scale 11 / (720 * cos c)"
    using cos_between(1) [OF c] by (simp add: pos_less_divide_eq)
  then show "\<not> fits 11 [(46, 7), (46.5, 7.5)]"
    unfolding fits_def h by simp
  obtain c' where c': "pi / 4 < c'" "c' < pi / 3"
    and h': "bbox_height 10 [(46, 7), (46.5, 7.5)] = project_scale 10 / (720 * cos c')"
    using height_46 [of 10] by blast
  have "project_scale 10 \<le> 800 * (720 * (1 / 2))" by (simp add: project_scale_def)
  also have "\<dots> \<le> 800 * (720 * cos c')" using cos_between(1) [OF c'] by simp
  finally have "project_scale 10 / (720 * cos c') \<le> 800"
    using cos_between(1) [OF c'] by (simp add: pos_divide_le_eq)
  then show "fits 10 [(46, 7), (46.5, 7.5)]"
    unfolding fits_def h' width_46 by (simp add: project_scale_def)
qed

lemma choose_zoom_46: "choose_zoom [(46, 7), (46.5, 7.5)] padding = Inr 10"
proof -
  have "choose_zoom [(46, 7), (46.5, 7.5)] padding =
     Inr (case find (\<lambda>z. fits z [(46, 7), (46.5, 7.5)]) [12, 11, 10, 9, 8, 7, 6, 5, 4] of
            Some z \<Rightarrow> z | None \<Rightarrow> 4)"
    unfolding choose_zoom_unfold zoom_candidates_eq by (rule choose_zoom_loop_find) simp
  then show ?thesis using fits_46 by simp
qed

text \<open>
  Claim C3, as the specification states it: for the two activation points (46.0, 7.0) and
  (46.5, 7.5) the zoom selector selects zoom level 12.  It does not: at zoom 12 the
  two points are 2^20 / 720 (about 1456) pixels apart in x, more than the 1200 allowed.
\<close>

theorem zoom_46_not_12: "choose_zoom [(46, 7), (46.5, 7.5)] 0.1 \<noteq> Inr 12"
  using choose_zoom_46 [of "0.1"] by simp

text \<open>
  Claim C3, amended: for the two activation points (46.0, 7.0) and (46.5, 7.5) the zoom
  selector selects zoom level 10.  Zoom 12 is too wide, zoom 11 is too high (the
  bounding box is more than 800 pixels high, about 1053), and zoom 10 fits (about 364
  by 527 pixels).
\<close>

theorem zoom_46_is_10: "choose_zoom [(46, 7), (46.5, 7.5)] padding = Inr 10"
  by (rule choose_zoom_46)

subsection \<open>The PNG path: empty input, order of the input, padding\<close>

lemma sort_key_point: "sort_key (\<lambda>p. (fst p, snd p)) (ps :: point list) = sort ps"
  by simp

lemma sort_points_perm:
  assumes "mset ps' = mset (ps :: point list)"
  shows "sort ps' = sort ps"
  by (rule properties_for_sort) (simp_all add: assms)

lemma output_to_png_Nil:
  "output_to_png env [] output_filename w =
     (Inl (RuntimeError ''No activation coordinates found''), w)"
  by (simp add: output_to_png_def)

text \<open>
  Claim C8.  With an empty activation list \<open>output_to_png\<close> fails with the
  RuntimeError "No activation coordinates found" and leaves the world as it was: no
  request was sent to the tile server, no cache directory or file was created, no
  output file was written.  The check comes before the bounds, the zoom and the tiles
  are computed: on an empty list these would have raised a ValueError instead.
\<close>

theorem output_to_png_empty:
  "output_to_png env [] output_filename w =
     (Inl (RuntimeError ''No activation coordinates found''), w) \<and>
   requests (snd (output_to_png env [] output_filename w)) = requests w \<and>
   files (snd (output_to_png env [] output_filename w)) = files w \<and>
   dirs (snd (output_to_png env [] output_filename w)) = dirs w \<and>
   outputs (snd (output_to_png env [] output_filename w)) = outputs w \<and>
   padded_bounds [] = Inl ValueError \<and> choose_zoom [] padding = Inl ValueError"
  by (simp add: output_to_png_def padded_bounds_def py_min_Nil ebind_simps choose_zoom_Nil)

text \<open>
  Claim C9.  The PNG path gives the same result (the same failure or the same output
  file, the same requests and cache) for an activation list and for every permutation
  of it: the points are sorted by (latitude, longitude) before the bounds, the zoom
  choice, the tiles and the markers are computed.
\<close>

theorem output_to_png_permutation:
  assumes "mset data' = mset data"
  shows "output_to_png env data' output_filename w = output_to_png env data output_filename w"
proof -
  let ?f = "\<lambda>a. (latitude a, longitude a)"
  have m: "mset (map ?f data') = mset (map ?f data)"
    using assms by (metis mset_map)
  have s: "sort (map ?f data') = sort (map ?f data)"
    by (rule sort_points_perm [OF m])
  have "data' = [] \<longleftrightarrow> data = []"
    using assms by (metis mset_zero_iff)
  then have e: "map ?f data' = [] \<longleftrightarrow> map ?f data = []" by simp
  show ?thesis
    unfolding output_to_png_def Let_def sort_key_point s e ..
qed

theorem output_to_png_permutation_witness:
  "output_to_png env_up
     [\<lparr>summit_code = ''A'', summit_name = ''A'', latitude = 46, longitude = 7, date = ''D''\<rparr>,
      \<lparr>summit_code = ''B'', summit_name = ''B'', latitude = 46.5, longitude = 7.5, date = ''D''\<rparr>]
     ''sota.png'' empty_world =
   output_to_png env_up
     [\<lparr>summit_code = ''B'', summit_name = ''B'', latitude = 46.5, longitude = 7.5, date = ''D''\<rparr>,
      \<lparr>summit_code = ''A'', summit_name = ''A'', latitude = 46, longitude = 7, date = ''D''\<rparr>]
     ''sota.png'' empty_world"
  by (rule output_to_png_permutation) (simp add: add.commute)


lemma padded_bounds_eq:
  assumes "points \<noteq> []"
  shows "padded_bounds points =
     Inr (Min (fst ` set points) - 0.1, Max (fst ` set points) + 0.1,
          Min (snd ` set points) - 0.1, Max (snd ` set points) + 0.1)"
proof -
  have n: "map fst points \<noteq> []" "map snd points \<noteq> []" using assms by simp_all
  show ?thesis
    unfolding padded_bounds_def Let_def
      py_min_Min [OF n(1)] py_max_Max [OF n(1)] py_min_Min [OF n(2)] py_max_Max [OF n(2)]
      ebind_simps
    by simp
qed

text \<open>
  Claim C10.  The padding argument of \<open>choose_zoom\<close> has no effect: the result is the
  same for any two values of it.  The fit test is made on the bounding box of the
  projected points themselves, while the box handed to the tile locator is the box of
  the points widened by 0.1 degrees on each side.
\<close>

theorem choose_zoom_ignores_padding:
  "choose_zoom points p1 = choose_zoom points p2 \<and>
   (points \<noteq> [] \<longrightarrow>
      choose_zoom points p1 =
        Inr (case find (\<lambda>z. bbox_width z points \<le> 1200 \<and> bbox_height z points \<le> 800)
                    [12, 11, 10, 9, 8, 7, 6, 5, 4] of
               Some z \<Rightarrow> z | None \<Rightarrow> 4) \<and>
      padded_bounds points =
        Inr (Min (fst ` set points) - 0.1, Max (fst ` set points) + 0.1,
             Min (snd ` set points) - 0.1, Max (snd ` set points) + 0.1))"
proof -
  have "choose_zoom points p1 =
        Inr (case find (\<lambda>z. bbox_width z points \<le> 1200 \<and> bbox_height z points \<le> 800)
                    [12, 11, 10, 9, 8, 7, 6, 5, 4] of
               Some z \<Rightarrow> z | None \<Rightarrow> 4)" if "points \<noteq> []"
    using choose_zoom_loop_find [OF that, of "[12, 11, 10, 9, 8, 7, 6, 5, 4]"]
    unfolding choose_zoom_unfold zoom_candidates_eq fits_def .
  then show ?thesis
    using padded_bounds_eq [of points] by (simp add: choose_zoom_unfold)
qed

theorem choose_zoom_ignores_padding_witness:
  "choose_zoom [(46, 7)] 0 = choose_zoom [(46, 7)] 5 \<and>
   choose_zoom [(46, 7)] 0 = Inr 12 \<and>
   padded_bounds [(46, 7)] = Inr (459 / 10, 461 / 10, 69 / 10, 71 / 10)"
proof -
  note t = choose_zoom_ignores_padding [of "[(46, 7)]" 0 5]
  have a: "choose_zoom [(46, 7)] 0 = choose_zoom [(46, 7)] 5"
    by (rule t [THEN conjunct1])
  have b: "choose_zoom [(46, 7)] 0 = Inr 12"
    using t [THEN conjunct2] by (simp add: bbox_width_def bbox_height_def)
  have c: "padded_bounds [(46, 7)] = Inr (459 / 10, 461 / 10, 69 / 10, 71 / 10)"
    using t [THEN conjunct2] by simp
  show ?thesis by (intro conjI a b c)
qed

subsection \<open>The tile cache\<close>

text \<open>
  Claim C5, as the specification states it: calling \<open>get_tile\<close> twice with the same
  (zoom, x, y) issues at most one network request.  It fails when the first call fails:
  with a tile server that answers 503 the first call raises after its request and caches
  nothing, so the second call sends the request again.
\<close>

theorem get_tile_twice_two_requests:
  "requests (snd (get_tile env_down 3 5 7 (snd (get_tile env_down 3 5 7 empty_world))))
     = [(3, 5, 7), (3, 5, 7)] \<and>
   fst (get_tile env_down 3 5 7 empty_world) = Inl HTTPError"
  by (simp add: get_tile_def env_down_def empty_world_def)

text \<open>
  Claim C5, amended.  If the first call of \<open>get_tile\<close> for (zoom, x, y) returns an
  image, then the two calls together issue at most one network request: the first call
  issues none on a cache hit and exactly one, for this tile, on a miss; afterwards the
  tile is in the local store, and the second call issues no request and changes nothing,
  it decodes the tile from the local store and returns its RGB conversion.  When the
  first call was itself a cache hit, the second call returns the same image.
\<close>

theorem get_tile_twice:
  assumes "get_tile env z x y w = (Inr img, w1)"
  shows "(\<exists>d. files w1 (z, x, y) = Some d \<and>
            get_tile env z x y w1 =
              (case image_open env d of Inl e \<Rightarrow> Inl e | Inr i \<Rightarrow> Inr (convert_rgb env i), w1)) \<and>
         requests (snd (get_tile env z x y w1)) = requests w1 \<and>
         (files w (z, x, y) = None \<longrightarrow> requests w1 = requests w @ [(z, x, y)]) \<and>
         (files w (z, x, y) \<noteq> None \<longrightarrow>
            requests w1 = requests w \<and> get_tile env z x y w1 = (Inr img, w1))"
proof (cases "files w (z, x, y)")
  case (Some d)
  with assms obtain i where i: "image_open env d = Inr i" "img = convert_rgb env i" "w1 = w"
    by (auto simp: get_tile_def split: sum.splits)
  show ?thesis using Some i by (simp add: get_tile_def)
next
  case None
  with assms obtain resp d where
    r: "http_get env (z, x, y) = Inr resp" "image_open env (content resp) = Inr img"
       "image_save_png env img = Inr d"
    and w1: "w1 = w\<lparr>dirs := insert (z, x) (dirs w), requests := requests w @ [(z, x, y)],
                    files := (files w)((z, x, y) \<mapsto> d)\<rparr>"
    by (auto simp: get_tile_def Let_def split: sum.splits if_splits)
  have f: "files w1 (z, x, y) = Some d" by (simp add: w1)
  have g: "get_tile env z x y w1 =
      (case image_open env d of Inl e \<Rightarrow> Inl e | Inr i \<Rightarrow> Inr (convert_rgb env i), w1)"
    by (simp add: get_tile_def f split: sum.splits)
  have l: "requests w1 = requests w @ [(z, x, y)]" by (simp add: w1)
  show ?thesis
    using None f l unfolding g by (auto split: sum.splits)
qed

theorem get_tile_twice_witness:
  "get_tile env_up 3 5 7 empty_world =
     (Inr ''PNG'', \<lparr>dirs = {(3, 5)}, files = [(3, 5, 7) \<mapsto> ''PNG''],
                    requests = [(3, 5, 7)], outputs = Map.empty\<rparr>) \<and>
   snd (get_tile env_up 3 5 7 \<lparr>dirs = {(3, 5)}, files = [(3, 5, 7) \<mapsto> ''PNG''],
                                 requests = [(3, 5, 7)], outputs = Map.empty\<rparr>) =
     \<lparr>dirs = {(3, 5)}, files = [(3, 5, 7) \<mapsto> ''PNG''],
      requests = [(3, 5, 7)], outputs = Map.empty\<rparr>"
proof -
  have first: "get_tile env_up 3 5 7 empty_world =
     (Inr ''PNG'', \<lparr>dirs = {(3, 5)}, files = [(3, 5, 7) \<mapsto> ''PNG''],
                    requests = [(3, 5, 7)], outputs = Map.empty\<rparr>)"
    by (simp add: get_tile_def env_up_def empty_world_def)
  from get_tile_twice [OF first] have
    "snd (get_tile env_up 3 5 7 \<lparr>dirs = {(3, 5)}, files = [(3, 5, 7) \<mapsto> ''PNG''],
                                 requests = [(3, 5, 7)], outputs = Map.empty\<rparr>) =
     \<lparr>dirs = {(3, 5)}, files = [(3, 5, 7) \<mapsto> ''PNG''],
      requests = [(3, 5, 7)], outputs = Map.empty\<rparr>"
    by auto
  with first show ?thesis by simp
qed

subsection \<open>The compositor\<close>

lemma canvas_geometry_eq:
  assumes "tiles \<noteq> []"
  shows "canvas_geometry tiles =
     Inr (Min (tile_x ` set tiles), Min (tile_y ` set tiles),
          (Max (tile_x ` set tiles) - Min (tile_x ` set tiles) + 1) * 256,
          (Max (tile_y ` set tiles) - Min (tile_y ` set tiles) + 1) * 256)"
proof -
  have n: "map tile_x tiles \<noteq> []" "map tile_y tiles \<noteq> []" using assms by simp_all
  show ?thesis
    unfolding canvas_geometry_def Let_def
      py_min_Min [OF n(1)] py_max_Max [OF n(1)] py_min_Min [OF n(2)] py_max_Max [OF n(2)]
      ebind_simps
    by (simp add: TILE_SIZE_def)
qed

lemma paste_tiles_fetch_all:
  "paste_tiles env min_x min_y ts done w =
     (case fetch_all env ts w of
        (Inl e, w') \<Rightarrow> (Inl e, w')
      | (Inr imgs, w') \<Rightarrow>
          (Inr (done @ map2 (\<lambda>img t. (img, (tile_x t - min_x) * 256, (tile_y t - min_y) * 256))
                          imgs ts), w'))"
proof (induction ts arbitrary: "done" w)
  case Nil
  then show ?case by simp
next
  case (Cons t ts)
  show ?case
    by (simp add: Cons.IH TILE_SIZE_def split: prod.splits sum.splits)
qed

lemma fetch_all_length: "fetch_all env ts w = (Inr imgs, w') \<Longrightarrow> length imgs = length ts"
  by (induction ts arbitrary: imgs w) (auto split: prod.splits sum.splits)

lemma draw_markers_ok: "\<exists>ms. draw_markers points zoom min_x min_y = Inr ms"
  unfolding draw_markers_def
  by (subst traverse_ok) (auto simp: lonlat_to_pixels_Inr ebind_simps Let_def)

text \<open>
  Claim C4.  For every non-empty tile set, with min_x, min_y, max_x, max_y the least and
  greatest tile indices, the compositor makes a canvas of exactly
  (max_x - min_x + 1) * 256 by (max_y - min_y + 1) * 256 pixels.  It fetches the tiles in
  the order of (y, x); if a fetch fails it fails with that error, and otherwise it
  completes and has pasted, for every tile (x, y), the image fetched for this tile at
  the pixel offset ((x - min_x) * 256, (y - min_y) * 256), and nothing else.
\<close>

theorem render_canvas:
  assumes "tiles \<noteq> []"
  shows "canvas_geometry tiles =
           Inr (Min (tile_x ` set tiles), Min (tile_y ` set tiles),
                (Max (tile_x ` set tiles) - Min (tile_x ` set tiles) + 1) * 256,
                (Max (tile_y ` set tiles) - Min (tile_y ` set tiles) + 1) * 256) \<and>
         (case fetch_all env (sort_key (\<lambda>t. (tile_y t, tile_x t)) tiles) w of
            (Inl e, w') \<Rightarrow> render env points zoom tiles w = (Inl e, w')
          | (Inr imgs, w') \<Rightarrow>
              length imgs = length tiles \<and>
              (\<exists>cv. render env points zoom tiles w = (Inr cv, w') \<and>
                 canvas_width cv = (Max (tile_x ` set tiles) - Min (tile_x ` set tiles) + 1) * 256 \<and>
                 canvas_height cv = (Max (tile_y ` set tiles) - Min (tile_y ` set tiles) + 1) * 256 \<and>
                 pastes cv =
                   map2 (\<lambda>img t. (img, (tile_x t - Min (tile_x ` set tiles)) * 256,
                                        (tile_y t - Min (tile_y ` set tiles)) * 256))
                        imgs (sort_key (\<lambda>t. (tile_y t, tile_x t)) tiles)))"
proof -
  let ?mx = "Min (tile_x ` set tiles)" and ?my = "Min (tile_y ` set tiles)"
  let ?W = "(Max (tile_x ` set tiles) - ?mx + 1) * 256"
  let ?H = "(Max (tile_y ` set tiles) - ?my + 1) * 256"
  let ?sorted = "sort_key (\<lambda>t. (tile_y t, tile_x t)) tiles"
  have g: "canvas_geometry tiles = Inr (?mx, ?my, ?W, ?H)"
    by (rule canvas_geometry_eq [OF assms])
  obtain ms where m: "draw_markers points zoom ?mx ?my = Inr ms"
    using draw_markers_ok by blast
  obtain r w' where f: "fetch_all env ?sorted w = (r, w')"
    by (cases "fetch_all env ?sorted w")
  have "case (r, w') of
            (Inl e, w') \<Rightarrow> render env points zoom tiles w = (Inl e, w')
          | (Inr imgs, w') \<Rightarrow>
              length imgs = length tiles \<and>
              (\<exists>cv. render env points zoom tiles w = (Inr cv, w') \<and>
                 canvas_width cv = ?W \<and> canvas_height cv = ?H \<and>
                 pastes cv =
                   map2 (\<lambda>img t. (img, (tile_x t - ?mx) * 256, (tile_y t - ?my) * 256))
                        imgs ?sorted)"
  proof (cases r)
    case (Inl e)
    then show ?thesis
      by (simp add: render_def g paste_tiles_fetch_all f)
  next
    case (Inr imgs)
    have "length imgs = length ?sorted"
      using f Inr by (intro fetch_all_length) simp
    then show ?thesis
      using Inr by (simp add: render_def g paste_tiles_fetch_all f m)
  qed
  then show ?thesis unfolding f using g by simp
qed

theorem render_canvas_witness:
  "\<exists>cv w'. render env_grid [(0, 0)] 3
       [\<lparr>tile_x = 4, tile_y = 4, tile_z = 3\<rparr>, \<lparr>tile_x = 3, tile_y = 4, tile_z = 3\<rparr>]
       empty_world = (Inr cv, w') \<and>
     canvas_width cv = 512 \<and> canvas_height cv = 256 \<and>
     pastes cv = [(''tile-3-4'', 0, 0), (''tile-4-4'', 256, 0)] \<and>
     requests w' = [(3, 3, 4), (3, 4, 4)]"
proof -
  let ?ts = "[\<lparr>tile_x = 4, tile_y = 4, tile_z = 3\<rparr>, \<lparr>tile_x = 3, tile_y = 4, tile_z = 3\<rparr>]"
  let ?w = "\<lparr>dirs = {(3, 4), (3, 3)},
             files = [(3, 3, 4) \<mapsto> ''tile-3-4'', (3, 4, 4) \<mapsto> ''tile-4-4''],
             requests = [(3, 3, 4), (3, 4, 4)], outputs = Map.empty\<rparr>"
  have s: "sort_key (\<lambda>t. (tile_y t, tile_x t)) ?ts
             = [\<lparr>tile_x = 3, tile_y = 4, tile_z = 3\<rparr>, \<lparr>tile_x = 4, tile_y = 4, tile_z = 3\<rparr>]"
    by simp
  have f: "fetch_all env_grid
             [\<lparr>tile_x = 3, tile_y = 4, tile_z = 3\<rparr>, \<lparr>tile_x = 4, tile_y = 4, tile_z = 3\<rparr>]
             empty_world = (Inr [''tile-3-4'', ''tile-4-4''], ?w)"
    by (simp add: get_tile_def env_grid_def empty_world_def)
  from render_canvas [where tiles = ?ts and env = env_grid and w = empty_world
      and points = "[(0, 0)]" and zoom = 3]
  obtain cv where "render env_grid [(0, 0)] 3 ?ts empty_world = (Inr cv, ?w)"
    "canvas_width cv = 512" "canvas_height cv = 256"
    "pastes cv = [(''tile-3-4'', 0, 0), (''tile-4-4'', 256, 0)]"
    unfolding s f by auto
  then show ?thesis by (intro exI [where x = cv] exI [where x = ?w]) simp
qed

subsection \<open>The tile locator\<close>

lemma set_tiles_for_bbox:
  "set (tiles_for_bbox min_lon min_lat max_lon max_lat zoom) =
     {t. max 0 \<lfloor>project_x min_lon zoom / 256\<rfloor> \<le> tile_x t \<and>
         tile_x t \<le> min (2 ^ zoom - 1) \<lfloor>project_x max_lon zoom / 256\<rfloor> \<and>
         max 0 \<lfloor>project_y max_lat zoom / 256\<rfloor> \<le> tile_y t \<and>
         tile_y t \<le> min (2 ^ zoom - 1) \<lfloor>project_y min_lat zoom / 256\<rfloor> \<and>
         tile_z t = zoom}"
proof -
  let ?x0 = "\<lfloor>project_x min_lon zoom / 256\<rfloor>" and ?x1 = "\<lfloor>project_x max_lon zoom / 256\<rfloor>"
  let ?y0 = "\<lfloor>project_y max_lat zoom / 256\<rfloor>" and ?y1 = "\<lfloor>project_y min_lat zoom / 256\<rfloor>"
  let ?ok = "\<lambda>i::int. 0 \<le> i \<and> i < 2 ^ zoom"
  let ?ts = "concat (map (\<lambda>x. map (\<lambda>y. \<lparr>tile_x = x, tile_y = y, tile_z = zoom\<rparr>)
                                    (filter ?ok [?y0..?y1]))
                          (filter ?ok [?x0..?x1]))"
  have d: "tiles_for_bbox min_lon min_lat max_lon max_lat zoom = ?ts"
    by (simp add: tiles_for_bbox_def Let_def)
  have "t \<in> set ?ts \<longleftrightarrow>
          max 0 ?x0 \<le> tile_x t \<and> tile_x t \<le> min (2 ^ zoom - 1) ?x1 \<and>
          max 0 ?y0 \<le> tile_y t \<and> tile_y t \<le> min (2 ^ zoom - 1) ?y1 \<and> tile_z t = zoom" for t
  proof
    assume "t \<in> set ?ts"
    then obtain x y where "x \<in> set (filter ?ok [?x0..?x1])" "y \<in> set (filter ?ok [?y0..?y1])"
      "t = \<lparr>tile_x = x, tile_y = y, tile_z = zoom\<rparr>"
      by auto
    then show "max 0 ?x0 \<le> tile_x t \<and> tile_x t \<le> min (2 ^ zoom - 1) ?x1 \<and>
          max 0 ?y0 \<le> tile_y t \<and> tile_y t \<le> min (2 ^ zoom - 1) ?y1 \<and> tile_z t = zoom"
      by simp
  next
    assume a: "max 0 ?x0 \<le> tile_x t \<and> tile_x t \<le> min (2 ^ zoom - 1) ?x1 \<and>
          max 0 ?y0 \<le> tile_y t \<and> tile_y t \<le> min (2 ^ zoom - 1) ?y1 \<and> tile_z t = zoom"
    have t: "t = \<lparr>tile_x = tile_x t, tile_y = tile_y t, tile_z = zoom\<rparr>" using a by simp
    have "tile_x t \<in> set (filter ?ok [?x0..?x1])" "tile_y t \<in> set (filter ?ok [?y0..?y1])"
      using a by simp_all
    then show "t \<in> set ?ts" using t by (simp del: set_filter set_upto) force
  qed
  then show ?thesis unfolding d by blast
qed

lemma tile_index_of_pixel:
  fixes p :: real
  assumes "0 \<le> p" "p < project_scale zoom"
  shows "0 \<le> \<lfloor>p / 256\<rfloor>" "\<lfloor>p / 256\<rfloor> \<le> 2 ^ zoom - 1"
proof -
  show "0 \<le> \<lfloor>p / 256\<rfloor>" using assms by simp
  have "p / 256 < 2 ^ zoom" using assms by (simp add: project_scale_def)
  then have "p / 256 < real_of_int (2 ^ zoom)" by simp
  then have "\<lfloor>p / 256\<rfloor> < 2 ^ zoom" by (simp only: floor_less_iff)
  then show "\<lfloor>p / 256\<rfloor> \<le> 2 ^ zoom - 1" by simp
qed

lemma footprint_floor:
  "in_footprint \<lparr>tile_x = \<lfloor>px / 256\<rfloor>, tile_y = \<lfloor>py / 256\<rfloor>, tile_z = zoom\<rparr> (px, py)"
proof -
  have "real_of_int \<lfloor>q / 256\<rfloor> \<le> q / 256 \<and> q / 256 < real_of_int \<lfloor>q / 256\<rfloor> + 1" for q :: real
    by linarith
  then have "256 * real_of_int \<lfloor>q / 256\<rfloor> \<le> q \<and> q < 256 * (real_of_int \<lfloor>q / 256\<rfloor> + 1)"
    for q :: real
    by (simp add: field_simps)
  then show ?thesis by (simp add: in_footprint_def)
qed

lemma tiles_cover_point:
  assumes pts: "(lat, lon) \<in> set points"
    and dom: "\<forall>(lat, lon) \<in> set points. - 90 \<le> lat \<and> lat \<le> 90"
    and inx: "0 \<le> project_x lon zoom" "project_x lon zoom < project_scale zoom"
    and iny: "0 \<le> project_y lat zoom" "project_y lat zoom < project_scale zoom"
  shows "covered
           (tiles_for_bbox (Min (snd ` set points) - 0.1) (Min (fst ` set points) - 0.1)
              (Max (snd ` set points) + 0.1) (Max (fst ` set points) + 0.1) zoom)
           (project_x lon zoom, project_y lat zoom)"
proof -
  let ?lo_lat = "Min (fst ` set points)" and ?hi_lat = "Max (fst ` set points)"
  let ?lo_lon = "Min (snd ` set points)" and ?hi_lon = "Max (snd ` set points)"
  let ?ts = "tiles_for_bbox (?lo_lon - 0.1) (?lo_lat - 0.1) (?hi_lon + 0.1) (?hi_lat + 0.1) zoom"
  have lat_in: "lat \<in> fst ` set points" and lon_in: "lon \<in> snd ` set points"
    using pts by force+
  have lat1: "?lo_lat \<le> lat" "lat \<le> ?hi_lat"
    using lat_in by simp_all
  have lon1: "?lo_lon \<le> lon" "lon \<le> ?hi_lon"
    using lon_in by simp_all
  have "?lo_lat \<in> fst ` set points" "?hi_lat \<in> fst ` set points"
    using lat_in by (auto intro!: Min_in Max_in)
  then have b: "- 90 \<le> ?lo_lat" "?hi_lat \<le> 90"
    using dom by force+
  have x0: "project_x (?lo_lon - 0.1) zoom \<le> project_x lon zoom"
    using lon1 by (intro project_x_mono) simp
  have x1: "project_x lon zoom \<le> project_x (?hi_lon + 0.1) zoom"
    using lon1 by (intro project_x_mono) simp
  have y0: "project_y (?hi_lat + 0.1) zoom \<le> project_y lat zoom"
    using lat1 b by (intro project_y_antimono) simp_all
  have y1: "project_y lat zoom \<le> project_y (?lo_lat - 0.1) zoom"
    using lat1 b by (intro project_y_antimono) simp_all
  let ?t = "\<lparr>tile_x = \<lfloor>project_x lon zoom / 256\<rfloor>, tile_y = \<lfloor>project_y lat zoom / 256\<rfloor>,
             tile_z = zoom\<rparr>"
  have fx0: "\<lfloor>project_x (?lo_lon - 0.1) zoom / 256\<rfloor> \<le> \<lfloor>project_x lon zoom / 256\<rfloor>"
    using x0 by (intro floor_mono) simp
  have fx1: "\<lfloor>project_x lon zoom / 256\<rfloor> \<le> \<lfloor>project_x (?hi_lon + 0.1) zoom / 256\<rfloor>"
    using x1 by (intro floor_mono) simp
  have fy0: "\<lfloor>project_y (?hi_lat + 0.1) zoom / 256\<rfloor> \<le> \<lfloor>project_y lat zoom / 256\<rfloor>"
    using y0 by (intro floor_mono) simp
  have fy1: "\<lfloor>project_y lat zoom / 256\<rfloor> \<le> \<lfloor>project_y (?lo_lat - 0.1) zoom / 256\<rfloor>"
    using y1 by (intro floor_mono) simp
  have "?t \<in> set ?ts"
    unfolding set_tiles_for_bbox
    using fx0 fx1 fy0 fy1 tile_index_of_pixel [OF inx] tile_index_of_pixel [OF iny]
    by simp
  then show ?thesis
    unfolding covered_def list_ex_iff
    using footprint_floor [of "project_x lon zoom" "project_y lat zoom" zoom]
    by blast
qed

lemma sin_just_below_pole: "9999 / 10000 \<le> sin (89.9 * pi / 180)"
proof -
  have "sin (89.9 * pi / 180) = sin (pi - 90.1 * pi / 180)"
    by (rule arg_cong [where f = sin]) (simp add: field_simps)
  also have "\<dots> = sin (90.1 * pi / 180)" by (rule sin_pi_minus)
  finally show ?thesis using sin_near_pole [of "90.1"] by simp
qed

lemma ln_19999: "2 * pi < ln (19999 :: real)"
proof -
  have "exp (of_nat 8 * 1) = exp (1::real) ^ 8" by (rule exp_of_nat_mult)
  also have "\<dots> \<le> 3 ^ 8" by (intro power_mono exp_le) simp
  finally have "exp (8::real) < 19999" by simp
  then have "exp (8::real) < exp (ln 19999)" by simp
  then have "8 < ln (19999::real)" by (simp only: exp_less_cancel_iff)
  moreover have "2 * pi < 8" using pi_less_4 by simp
  ultimately show ?thesis by linarith
qed

lemma project_y_near_pole: "project_y 89.9 zoom < 0"
proof -
  have s: "project_siny 89.9 = 9999 / 10000"
    using sin_just_below_pole by (simp add: project_siny_def clamp_def)
  have "(1/2 :: real) - ln 19999 / (4 * pi) < 0"
    using ln_19999 pi_gt_zero by (simp add: field_simps)
  then have "(1/2 - ln 19999 / (4 * pi)) * project_scale zoom < 0"
    using project_scale_pos [of zoom] by (simp add: mult_less_0_iff)
  then show ?thesis by (simp add: project_y_def s)
qed

lemma no_fit_equator_pole:
  assumes "4 \<le> z"
  shows "\<not> fits z [(0, 0), (89.9, 0)]"
proof -
  have "(2::real) ^ 4 \<le> 2 ^ z" using assms by (intro power_increasing) simp_all
  then have big: "800 < project_y 0 z" by (simp add: project_origin)
  have neg: "project_y 89.9 z < 0" by (rule project_y_near_pole)
  have "bbox_height z [(0, 0), (89.9, 0)] = project_y 0 z - project_y 89.9 z"
    using big neg by (simp add: bbox_height_def max_def min_def)
  then have "800 < bbox_height z [(0, 0), (89.9, 0)]" using big neg by linarith
  then show ?thesis by (simp add: fits_def)
qed

text \<open>
  Claim C7, as the specification states it: for every non-empty set of input points the
  projected pixel location of every point falls within the footprint of some returned
  tile.  It fails for a point close to a pole.  For the two points at (0, 0) and at
  latitude 89.9, longitude 0, no zoom fits and zoom 4 is chosen; the tiles cover the
  point (0, 0), but the sine of the latitude 89.9 is clamped to 0.9999 and its projected
  y is negative, above the world map, while every tile index has y at least 0.
\<close>

theorem tiles_miss_polar_point:
  "choose_zoom [(0, 0), (89.9, 0)] 0.1 = Inr 4 \<and>
   padded_bounds [(0, 0), (89.9, 0)] = Inr (- 0.1, 90, - 0.1, 0.1) \<and>
   covered (tiles_for_bbox (- 0.1) (- 0.1) 0.1 90 4) (projr (lonlat_to_pixels 0 0 4)) \<and>
   \<not> covered (tiles_for_bbox (- 0.1) (- 0.1) 0.1 90 4) (projr (lonlat_to_pixels 0 89.9 4))"
proof -
  let ?ts = "tiles_for_bbox (- 0.1) (- 0.1) 0.1 90 4"
  have s: "\<forall>t \<in> set ?ts. 0 \<le> tile_y t"
    unfolding set_tiles_for_bbox by simp
  have "find (\<lambda>z. fits z [(0, 0), (89.9, 0)]) [12, 11, 10, 9, 8, 7, 6, 5, 4] = None"
    by (simp add: no_fit_equator_pole)
  then have z: "choose_zoom [(0, 0), (89.9, 0)] 0.1 = Inr 4"
    unfolding choose_zoom_unfold zoom_candidates_eq
    by (subst choose_zoom_loop_find) simp_all
  have b: "padded_bounds [(0, 0), (89.9, 0)] = Inr (- 0.1, 90, - 0.1, 0.1)"
    by (simp add: padded_bounds_eq)
  let ?pts = "[(0, 0), (89.9, 0)] :: point list"
  have "covered
          (tiles_for_bbox (Min (snd ` set ?pts) - 0.1) (Min (fst ` set ?pts) - 0.1)
             (Max (snd ` set ?pts) + 0.1) (Max (fst ` set ?pts) + 0.1) 4)
          (project_x 0 4, project_y 0 4)"
    by (rule tiles_cover_point) (simp_all add: project_origin project_scale_def)
  then have c: "covered ?ts (projr (lonlat_to_pixels 0 0 4))"
    by (simp add: lonlat_to_pixels_Inr)
  have "\<not> in_footprint t (project_x 0 4, project_y 89.9 4)" if "t \<in> set ?ts" for t
  proof -
    have "0 \<le> 256 * real_of_int (tile_y t)" using s that by simp
    then show ?thesis using project_y_near_pole [of 4] by (simp add: in_footprint_def)
  qed
  then have n: "\<not> covered ?ts (projr (lonlat_to_pixels 0 89.9 4))"
    by (simp add: lonlat_to_pixels_Inr covered_def list_ex_iff)
  show ?thesis by (intro conjI z b c n)
qed

text \<open>
  Claim C7, amended.  For every non-empty list of input points with latitudes from -90
  to 90 and for every zoom (so for the chosen one), the tile set computed from the
  bounding box of the points widened by 0.1 degrees on each side is a contiguous
  rectangle in (x, y) index space, and every input point whose projected pixel location
  lies inside the world map, 0 \<le> x, y < 256 * 2^zoom (a longitude in [-180, 180) and a
  latitude within about 85.05 degrees of the equator), falls within the pixel footprint
  of some returned tile.
\<close>

theorem tiles_cover_points:
  assumes "points \<noteq> []"
    and "\<forall>(lat, lon) \<in> set points. - 90 \<le> lat \<and> lat \<le> 90"
  shows "padded_bounds points =
           Inr (Min (fst ` set points) - 0.1, Max (fst ` set points) + 0.1,
                Min (snd ` set points) - 0.1, Max (snd ` set points) + 0.1) \<and>
    (\<exists>x0 x1 y0 y1.
       set (tiles_for_bbox (Min (snd ` set points) - 0.1) (Min (fst ` set points) - 0.1)
              (Max (snd ` set points) + 0.1) (Max (fst ` set points) + 0.1) zoom)
         = {t. x0 \<le> tile_x t \<and> tile_x t \<le> x1 \<and> y0 \<le> tile_y t \<and> tile_y t \<le> y1 \<and>
               tile_z t = zoom}) \<and>
    (\<forall>(lat, lon) \<in> set points.
        0 \<le> fst (projr (lonlat_to_pixels lon lat zoom)) \<and>
        fst (projr (lonlat_to_pixels lon lat zoom)) < 256 * 2 ^ zoom \<and>
        0 \<le> snd (projr (lonlat_to_pixels lon lat zoom)) \<and>
        snd (projr (lonlat_to_pixels lon lat zoom)) < 256 * 2 ^ zoom
        \<longrightarrow> covered
              (tiles_for_bbox (Min (snd ` set points) - 0.1) (Min (fst ` set points) - 0.1)
                 (Max (snd ` set points) + 0.1) (Max (fst ` set points) + 0.1) zoom)
              (projr (lonlat_to_pixels lon lat zoom)))"
proof (intro conjI)
  show "padded_bounds points =
           Inr (Min (fst ` set points) - 0.1, Max (fst ` set points) + 0.1,
                Min (snd ` set points) - 0.1, Max (snd ` set points) + 0.1)"
    by (rule padded_bounds_eq [OF assms(1)])
  show "\<exists>x0 x1 y0 y1.
       set (tiles_for_bbox (Min (snd ` set points) - 0.1) (Min (fst ` set points) - 0.1)
              (Max (snd ` set points) + 0.1) (Max (fst ` set points) + 0.1) zoom)
         = {t. x0 \<le> tile_x t \<and> tile_x t \<le> x1 \<and> y0 \<le> tile_y t \<and> tile_y t \<le> y1 \<and>
               tile_z t = zoom}"
    unfolding set_tiles_for_bbox by blast
  show "\<forall>(lat, lon) \<in> set points.
        0 \<le> fst (projr (lonlat_to_pixels lon lat zoom)) \<and>
        fst (projr (lonlat_to_pixels lon lat zoom)) < 256 * 2 ^ zoom \<and>
        0 \<le> snd (projr (lonlat_to_pixels lon lat zoom)) \<and>
        snd (projr (lonlat_to_pixels lon lat zoom)) < 256 * 2 ^ zoom
        \<longrightarrow> covered
              (tiles_for_bbox (Min (snd ` set points) - 0.1) (Min (fst ` set points) - 0.1)
                 (Max (snd ` set points) + 0.1) (Max (fst ` set points) + 0.1) zoom)
              (projr (lonlat_to_pixels lon lat zoom))"
  proof (intro ballI, clarify)
    fix lat lon
    assume p: "(lat, lon) \<in> set points"
      and "0 \<le> fst (projr (lonlat_to_pixels lon lat zoom))"
        "fst (projr (lonlat_to_pixels lon lat zoom)) < 256 * 2 ^ zoom"
        "0 \<le> snd (projr (lonlat_to_pixels lon lat zoom))"
        "snd (projr (lonlat_to_pixels lon lat zoom)) < 256 * 2 ^ zoom"
    then have i: "0 \<le> project_x lon zoom" "project_x lon zoom < project_scale zoom"
      "0 \<le> project_y lat zoom" "project_y lat zoom < project_scale zoom"
      by (simp_all add: lonlat_to_pixels_Inr project_scale_def)
    from tiles_cover_point [OF p assms(2) i]
    show "covered
              (tiles_for_bbox (Min (snd ` set points) - 0.1) (Min (fst ` set points) - 0.1)
                 (Max (snd ` set points) + 0.1) (Max (fst ` set points) + 0.1) zoom)
              (projr (lonlat_to_pixels lon lat zoom))"
      by (simp add: lonlat_to_pixels_Inr)
  qed
qed

theorem tiles_cover_points_witness:
  "padded_bounds [(0, 0)] = Inr (- (1 / 10), 1 / 10, - (1 / 10), 1 / 10) \<and>
   lonlat_to_pixels 0 0 12 = Inr (524288, 524288) \<and>
   covered (tiles_for_bbox (- (1 / 10)) (- (1 / 10)) (1 / 10) (1 / 10) 12) (524288, 524288)"
proof -
  have p: "lonlat_to_pixels 0 0 12 = Inr (524288, 524288)"
    by (simp add: lonlat_to_pixels_Inr project_origin)
  note t = tiles_cover_points [of "[(0, 0)]" 12]
  have a: "padded_bounds [(0, 0)] = Inr (- (1 / 10), 1 / 10, - (1 / 10), 1 / 10)"
    using t by simp
  have c: "covered (tiles_for_bbox (- (1 / 10)) (- (1 / 10)) (1 / 10) (1 / 10) 12)
             (524288, 524288)"
    using t by (simp add: p)
  show ?thesis by (intro conjI a p c)
qed

end
